theory Spec2Isabelle
  imports Complex_Main
begin

text \<open>
  A model of \<open>src/tokenizer/Layer.js\<close>, the layer of the tokenizer's compositing
  pipeline, and the properties its specification states about it. The first part models
  what the code does to pixel bytes (the alpha classifier, the fast paths of mask
  creation, the colour-key pass); the second part models a layer's fields, its canvases
  and the drawing calls it issues on them (transforms, redraw, masks, clone). The
  definitions come first, the lemmas and theorems after them.
\<close>

section \<open>Pixel data\<close>

text \<open>
  The bytes a canvas hands out through \<open>getImageData\<close>: a flat array, four entries
  (red, green, blue, alpha) per pixel, rows first. Entries are the integers 0..255.
  \<open>TRANSPARENCY_THRESHOLD\<close> and \<open>MASK_DENSITY\<close> come from \<open>constants.js\<close>, which
  is not part of the sources at hand; every function that reads one of them takes it as
  its first argument.
\<close>

record imagedata =
  width :: nat
  height :: nat
  data :: "int list"

text \<open>
  Reading a JavaScript array: an index outside the array yields \<open>undefined\<close>
  (\<open>None\<close>), and a comparison with \<open>undefined\<close> is false.
\<close>

definition js_get :: "'a list \<Rightarrow> int \<Rightarrow> 'a option" where
  "js_get xs i = (if 0 \<le> i \<and> i < int (length xs) then Some (xs ! nat i) else None)"

definition js_lt :: "int option \<Rightarrow> int option \<Rightarrow> bool" where
  "js_lt a b = (case a of None \<Rightarrow> False
                | Some u \<Rightarrow> (case b of None \<Rightarrow> False | Some v \<Rightarrow> u < v))"

text \<open>
  The exceptions the modelled code can end in: a property read on \<open>undefined\<close>
  (TypeError), \<open>getImageData\<close> of an area without pixels (IndexSizeError), and
  \<open>drawImage\<close> of a canvas without pixels (InvalidStateError).
\<close>

datatype js_error = TypeError | IndexSizeError | InvalidStateError

text \<open>\<open>Layer.isTransparent(pixels, x, y)\<close>\<close>

definition isTransparent :: "int \<Rightarrow> imagedata \<Rightarrow> int \<Rightarrow> int \<Rightarrow> bool" where
  "isTransparent TRANSPARENCY_THRESHOLD pixels x y =
     js_lt (Some TRANSPARENCY_THRESHOLD)
           (js_get (data pixels) ((((y * int (width pixels)) + x) * 4) + 3))"

text \<open>
  The row-major reading of the same bytes, written without index arithmetic on the whole
  array: row \<open>y\<close> is the \<open>y\<close>-th block of \<open>4 * width\<close> entries, pixel \<open>x\<close> of a
  row is its \<open>x\<close>-th block of four, and the alpha byte is the last entry of a pixel.
\<close>

definition row_at :: "imagedata \<Rightarrow> nat \<Rightarrow> int list" where
  "row_at pixels y = take (4 * width pixels) (drop (y * (4 * width pixels)) (data pixels))"

definition pixel_at :: "imagedata \<Rightarrow> nat \<Rightarrow> nat \<Rightarrow> int list" where
  "pixel_at pixels x y = take 4 (drop (4 * x) (row_at pixels y))"

definition alpha_at :: "imagedata \<Rightarrow> nat \<Rightarrow> nat \<Rightarrow> int" where
  "alpha_at pixels x y = pixel_at pixels x y ! 3"

definition wf_imagedata :: "imagedata \<Rightarrow> bool" where
  "wf_imagedata pixels = (length (data pixels) = 4 * (width pixels * height pixels))"

text \<open>
  \<open>getImageData(0, 0, c.width, c.height).data\<close> for a canvas \<open>c\<close>: the bytes of the
  whole canvas. A canvas of width or height 0 has no such area, and the call throws.
\<close>

definition getImageData :: "imagedata \<Rightarrow> js_error + int list" where
  "getImageData c = (if width c = 0 \<or> height c = 0 then Inl IndexSizeError else Inr (data c))"

text \<open>
  \<open>isCompletelyTransparent()\<close> and \<open>isCompletelyOpaque()\<close>: the bytes of
  \<open>this.source\<close> are fetched with \<open>getImageData\<close>, then the loop runs over them,
  \<open>index\<close> advancing by four.
\<close>

function isCompletelyTransparent_loop :: "int \<Rightarrow> int list \<Rightarrow> int \<Rightarrow> bool" where
  "isCompletelyTransparent_loop TRANSPARENCY_THRESHOLD pixels index =
     (if index < int (length pixels)
      then (if js_lt (Some TRANSPARENCY_THRESHOLD) (js_get pixels (index + 3))
            then False
            else isCompletelyTransparent_loop TRANSPARENCY_THRESHOLD pixels (index + 4))
      else True)"
  by pat_completeness auto
termination
  by (relation "measure (\<lambda>(t, pixels, index). nat (int (length pixels) - index))") auto

definition isCompletelyTransparent :: "int \<Rightarrow> imagedata \<Rightarrow> js_error + bool" where
  "isCompletelyTransparent TRANSPARENCY_THRESHOLD source =
     (case getImageData source of
        Inl e \<Rightarrow> Inl e
      | Inr pixels \<Rightarrow> Inr (isCompletelyTransparent_loop TRANSPARENCY_THRESHOLD pixels 0))"

function isCompletelyOpaque_loop :: "int \<Rightarrow> int list \<Rightarrow> int \<Rightarrow> bool" where
  "isCompletelyOpaque_loop TRANSPARENCY_THRESHOLD pixels index =
     (if index < int (length pixels)
      then (if js_lt (js_get pixels (index + 3)) (Some TRANSPARENCY_THRESHOLD)
            then False
            else isCompletelyOpaque_loop TRANSPARENCY_THRESHOLD pixels (index + 4))
      else True)"
  by pat_completeness auto
termination
  by (relation "measure (\<lambda>(t, pixels, index). nat (int (length pixels) - index))") auto

definition isCompletelyOpaque :: "int \<Rightarrow> imagedata \<Rightarrow> js_error + bool" where
  "isCompletelyOpaque TRANSPARENCY_THRESHOLD source =
     (case getImageData source of
        Inl e \<Rightarrow> Inl e
      | Inr pixels \<Rightarrow> Inr (isCompletelyOpaque_loop TRANSPARENCY_THRESHOLD pixels 0))"

text \<open>The alpha bytes of a byte array, pixel by pixel (a trailing partial pixel has none).\<close>

fun alphas :: "int list \<Rightarrow> int list" where
  "alphas (r # g # b # a # rest) = a # alphas rest"
| "alphas rest = []"

subsection \<open>The drawing surface behind \<open>createOriginalMask\<close>\<close>

text \<open>
  \<open>createOriginalMask\<close> draws on two canvases it has just created, so their contexts are
  in the initial state: identity transform, \<open>globalAlpha = 1\<close>, composite operation
  \<open>source-over\<close>. The browser's drawing calls it uses are modelled on the bytes for that
  state: a new canvas is transparent black, \<open>clearRect\<close> zeroes the pixels of the
  rectangle, and \<open>fillRect\<close> composites the fill colour over them. The nine-argument
  \<open>drawImage\<close> throws when the canvas it is given has width or height 0, and draws
  nothing when the source or the destination rectangle is empty. Otherwise it maps the
  destination rectangle onto the source rectangle; the part of the source rectangle that
  lies outside the image is clipped away together with the matching part of the
  destination, which is what skipping the samples outside the image does. The sample is
  the nearest pixel: how a browser smooths a scaled image is not fixed by the canvas
  standard. A block of one colour is drawn as that colour by either, and nothing proved
  below depends on more.
\<close>

type_synonym rgba = "int \<times> int \<times> int \<times> int"

definition rgba_bytes :: "rgba \<Rightarrow> int list" where
  "rgba_bytes p = (case p of (r, g, b, a) \<Rightarrow> [r, g, b, a])"

definition rgba_alpha :: "rgba \<Rightarrow> int" where
  "rgba_alpha p = (case p of (r, g, b, a) \<Rightarrow> a)"

definition get_pixel :: "imagedata \<Rightarrow> nat \<Rightarrow> nat \<Rightarrow> rgba" where
  "get_pixel img x y =
     (case pixel_at img x y of [r, g, b, a] \<Rightarrow> (r, g, b, a) | _ \<Rightarrow> (0, 0, 0, 0))"

definition raster :: "nat \<Rightarrow> nat \<Rightarrow> (nat \<Rightarrow> nat \<Rightarrow> rgba) \<Rightarrow> imagedata" where
  "raster w h f =
     \<lparr>width = w, height = h,
      data = concat (map (\<lambda>k. rgba_bytes (f (k mod w) (k div w))) [0 ..< w * h])\<rparr>"

definition source_over :: "rgba \<Rightarrow> rgba \<Rightarrow> rgba" where
  "source_over s d =
     (case s of (sr, sg, sb, sa) \<Rightarrow> (case d of (dr, dg, db, da) \<Rightarrow>
        (let oa = sa + (da * (255 - sa)) div 255
         in if oa = 0 then (0, 0, 0, 0)
            else ((sr * sa + (dr * da * (255 - sa)) div 255) div oa,
                  (sg * sa + (dg * da * (255 - sa)) div 255) div oa,
                  (sb * sa + (db * da * (255 - sa)) div 255) div oa,
                  oa))))"

definition createCanvas :: "nat \<Rightarrow> nat \<Rightarrow> imagedata" where
  "createCanvas w h = raster w h (\<lambda>x y. (0, 0, 0, 0))"

definition in_rect :: "nat \<Rightarrow> nat \<Rightarrow> nat \<Rightarrow> nat \<Rightarrow> nat \<Rightarrow> nat \<Rightarrow> bool" where
  "in_rect x y w h i j = (x \<le> i \<and> i < x + w \<and> y \<le> j \<and> j < y + h)"

definition clearRect :: "nat \<Rightarrow> nat \<Rightarrow> nat \<Rightarrow> nat \<Rightarrow> imagedata \<Rightarrow> imagedata" where
  "clearRect x y w h img =
     raster (width img) (height img)
       (\<lambda>i j. if in_rect x y w h i j then (0, 0, 0, 0) else get_pixel img i j)"

definition fillRect :: "rgba \<Rightarrow> nat \<Rightarrow> nat \<Rightarrow> nat \<Rightarrow> nat \<Rightarrow> imagedata \<Rightarrow> imagedata" where
  "fillRect fillStyle x y w h img =
     raster (width img) (height img)
       (\<lambda>i j. if in_rect x y w h i j then source_over fillStyle (get_pixel img i j)
               else get_pixel img i j)"

definition paint_image ::
  "imagedata \<Rightarrow> nat \<Rightarrow> nat \<Rightarrow> nat \<Rightarrow> nat \<Rightarrow> nat \<Rightarrow> nat \<Rightarrow> nat \<Rightarrow> nat \<Rightarrow> imagedata \<Rightarrow> imagedata" where
  "paint_image src sx sy sw sh dx dy dw dh dst =
     (if sw = 0 \<or> sh = 0 \<or> dw = 0 \<or> dh = 0 then dst
      else raster (width dst) (height dst)
        (\<lambda>i j. if in_rect dx dy dw dh i j
                then (let u = sx + ((i - dx) * sw) div dw;
                          v = sy + ((j - dy) * sh) div dh
                      in if u < width src \<and> v < height src
                         then source_over (get_pixel src u v) (get_pixel dst i j)
                         else get_pixel dst i j)
                else get_pixel dst i j))"

definition drawImage ::
  "imagedata \<Rightarrow> nat \<Rightarrow> nat \<Rightarrow> nat \<Rightarrow> nat \<Rightarrow> nat \<Rightarrow> nat \<Rightarrow> nat \<Rightarrow> nat \<Rightarrow> imagedata
     \<Rightarrow> js_error + imagedata" where
  "drawImage src sx sy sw sh dx dy dw dh dst =
     (if width src = 0 \<or> height src = 0 then Inl InvalidStateError
      else Inr (paint_image src sx sy sw sh dx dy dw dh dst))"

subsection \<open>The path of the traced contour\<close>

text \<open>
  The current path of a context, as the list of its segments. Following the canvas
  standard, \<open>moveTo\<close> and \<open>lineTo\<close> return without effect when an argument is not a
  finite number (\<open>undefined\<close> converts to NaN), \<open>lineTo\<close> on a path without subpath
  only starts one, and \<open>closePath\<close> does nothing on a path without subpath.
\<close>

datatype path_cmd = MoveTo int int | LineTo int int | ClosePath

definition moveTo :: "int option \<Rightarrow> int option \<Rightarrow> path_cmd list \<Rightarrow> path_cmd list" where
  "moveTo x y path =
     (case x of None \<Rightarrow> path
      | Some a \<Rightarrow> (case y of None \<Rightarrow> path | Some b \<Rightarrow> path @ [MoveTo a b]))"

definition lineTo :: "int option \<Rightarrow> int option \<Rightarrow> path_cmd list \<Rightarrow> path_cmd list" where
  "lineTo x y path =
     (case x of None \<Rightarrow> path
      | Some a \<Rightarrow> (case y of None \<Rightarrow> path
                   | Some b \<Rightarrow> if path = [] then [MoveTo a b] else path @ [LineTo a b]))"

definition closePath :: "path_cmd list \<Rightarrow> path_cmd list" where
  "closePath path = (if path = [] then path else path @ [ClosePath])"

text \<open>
  Lines 231 to 237 of \<open>createOriginalMask\<close>: \<open>beginPath\<close>, the \<open>moveTo\<close> of
  \<open>points[0][0], points[0][4]\<close>, one \<open>lineTo\<close> per further point, \<open>closePath\<close>.
  A point is the array the tracer returned for it. \<open>points[0]\<close> of an empty array is
  \<open>undefined\<close>, and reading a property of \<open>undefined\<close> throws a TypeError.
\<close>

definition contourPath :: "int list list \<Rightarrow> js_error + path_cmd list" where
  "contourPath points =
     (case js_get points 0 of
        None \<Rightarrow> Inl TypeError
      | Some p0 \<Rightarrow>
          Inr (closePath
                (fold (\<lambda>i path. let point = points ! i
                                 in lineTo (js_get point 0) (js_get point 1) path)
                      [1 ..< length points]
                      (moveTo (js_get p0 0) (js_get p0 4) []))))"

subsection \<open>\<open>createOriginalMask()\<close>\<close>

text \<open>
  \<open>canvas\<close> and \<open>source\<close> are the bitmaps of \<open>this.canvas\<close> and \<open>this.source\<close>; the
  result is the bitmap of the new \<open>this.renderedMask\<close>. The contour tracer
  (\<open>geom.contour\<close> of \<open>MarchingSquares.js\<close>) and the browser's polygon fill are not
  part of the sources at hand and are arguments. The fill style is \<open>"black"\<close> whatever
  the \<open>default-color\<close> setting says: line 218 overwrites it before anything is filled.
  In the opaque branch the \<open>fill()\<close> after \<open>fillRect\<close> finds the empty path of a
  new context and paints nothing. The stroke style and the line width are set and never
  used: nothing is stroked. An exception of \<open>drawImage\<close> or \<open>getImageData\<close> ends
  the call, in the order the code makes the calls: \<open>this.canvas\<close> is drawn first
  (line 207), \<open>this.source\<close> is read by the two tests (lines 221 and 223).
\<close>

definition createOriginalMask ::
  "int \<Rightarrow> nat \<Rightarrow> ((int \<Rightarrow> int \<Rightarrow> bool) \<Rightarrow> int list list)
     \<Rightarrow> (path_cmd list \<Rightarrow> imagedata \<Rightarrow> imagedata)
     \<Rightarrow> imagedata \<Rightarrow> imagedata \<Rightarrow> js_error + imagedata" where
  "createOriginalMask TRANSPARENCY_THRESHOLD MASK_DENSITY contour fill canvas source =
     (case drawImage canvas 1 1 (width canvas) (height canvas)
             1 1 MASK_DENSITY MASK_DENSITY
             (createCanvas (MASK_DENSITY + 2) (MASK_DENSITY + 2)) of
        Inl e \<Rightarrow> Inl e
      | Inr temp \<Rightarrow>
          (let pixels = temp;
               black = (0, 0, 0, 255);
               drawn =
                 (case isCompletelyTransparent TRANSPARENCY_THRESHOLD source of
                    Inl e \<Rightarrow> Inl e
                  | Inr transparent \<Rightarrow>
                      if transparent
                      then Inr (clearRect 0 0 (width temp) (height temp) temp)
                      else (case isCompletelyOpaque TRANSPARENCY_THRESHOLD source of
                              Inl e \<Rightarrow> Inl e
                            | Inr opaque \<Rightarrow>
                                if opaque
                                then Inr (fillRect black 0 0 (width temp) (height temp)
                                           (clearRect 0 0 (width temp) (height temp) temp))
                                else (case contourPath
                                             (contour (\<lambda>x y. isTransparent
                                                TRANSPARENCY_THRESHOLD pixels x y)) of
                                        Inl e \<Rightarrow> Inl e
                                      | Inr path \<Rightarrow>
                                          Inr (fill path
                                                (clearRect 0 0 (width temp) (height temp)
                                                   temp)))))
           in case drawn of
                Inl e \<Rightarrow> Inl e
              | Inr temp' \<Rightarrow>
                  drawImage temp' 1 1 MASK_DENSITY MASK_DENSITY
                    0 0 (width source) (height source)
                    (createCanvas (width source) (height source))))"

section \<open>The colour-key pass\<close>

text \<open>
  \<open>libs/Color.js\<close> is not part of the sources at hand. A colour is the object
  \<open>applyTransparentPixels\<close> builds from four entries of the byte array; an entry read
  past the end of the array is \<open>undefined\<close>. \<open>isNeighborColor\<close>, a method of that
  class, is an argument: any function of the reference colour and the pixel's colour.
\<close>

record Color =
  red :: "int option"
  green :: "int option"
  blue :: "int option"
  alpha :: "int option"

text \<open>Writing to a typed array: an index outside the array is ignored.\<close>

definition js_set :: "'a list \<Rightarrow> int \<Rightarrow> 'a \<Rightarrow> 'a list" where
  "js_set xs i v = (if 0 \<le> i \<and> i < int (length xs) then xs[nat i := v] else xs)"

text \<open>
  The inner loop of \<open>applyTransparentPixels\<close> for one reference colour. The pixel's
  colour is built as the source builds it: \<open>blue\<close> from entry \<open>i + 1\<close>, \<open>green\<close>
  from entry \<open>i + 2\<close>. The counter \<open>count\<close> only feeds the debug log and is left out.
\<close>

function applyTransparentPixels_loop ::
  "(Color \<Rightarrow> Color \<Rightarrow> bool) \<Rightarrow> Color \<Rightarrow> int list \<Rightarrow> int \<Rightarrow> int list" where
  "applyTransparentPixels_loop isNeighborColor color imageData i =
     (if i < int (length imageData)
      then (let pixelColor = \<lparr>red = js_get imageData i,
                               green = js_get imageData (i + 2),
                               blue = js_get imageData (i + 1),
                               alpha = js_get imageData (i + 3)\<rparr>
            in if isNeighborColor color pixelColor
               then applyTransparentPixels_loop isNeighborColor color
                      (js_set (js_set (js_set (js_set imageData i 0) (i + 1) 0) (i + 2) 0)
                         (i + 3) 0)
                      (i + 4)
               else applyTransparentPixels_loop isNeighborColor color imageData (i + 4))
      else imageData)"
  by pat_completeness auto
termination
  by (relation "measure (\<lambda>(nb, color, imageData, i). nat (int (length imageData) - i))")
     (auto simp: js_set_def)

declare applyTransparentPixels_loop.simps [simp del]

text \<open>
  \<open>applyTransparentPixels(context)\<close> on the bytes \<open>getImageData\<close> returns for the whole
  canvas; the result is what \<open>putImageData\<close> writes back. \<open>alphaPixelColors\<close> is a
  JavaScript \<open>Set\<close>, visited in insertion order.
\<close>

definition applyTransparentPixels ::
  "(Color \<Rightarrow> Color \<Rightarrow> bool) \<Rightarrow> Color list \<Rightarrow> int list \<Rightarrow> int list" where
  "applyTransparentPixels isNeighborColor alphaPixelColors imageData =
     (if alphaPixelColors = [] then imageData
      else fold (\<lambda>color d. applyTransparentPixels_loop isNeighborColor color d 0)
             alphaPixelColors imageData)"

text \<open>
  The same pass for one reference colour, read off the array pixel by pixel instead of
  by index; \<open>loop_key_pixels\<close> below shows that the loop computes it. A trailing
  partial pixel does not occur in image data and is treated as the loop treats it.
\<close>

fun key_pixels :: "(Color \<Rightarrow> Color \<Rightarrow> bool) \<Rightarrow> Color \<Rightarrow> int list \<Rightarrow> int list" where
  "key_pixels nb c (r # g # b # a # rest) =
     (if nb c \<lparr>red = Some r, green = Some b, blue = Some g, alpha = Some a\<rparr>
      then [0, 0, 0, 0] else [r, g, b, a]) @ key_pixels nb c rest"
| "key_pixels nb c [r, g, b] =
     (if nb c \<lparr>red = Some r, green = Some b, blue = Some g, alpha = None\<rparr>
      then [0, 0, 0] else [r, g, b])"
| "key_pixels nb c [r, g] =
     (if nb c \<lparr>red = Some r, green = None, blue = Some g, alpha = None\<rparr>
      then [0, 0] else [r, g])"
| "key_pixels nb c [r] =
     (if nb c \<lparr>red = Some r, green = None, blue = None, alpha = None\<rparr>
      then [0] else [r])"
| "key_pixels nb c [] = []"

section \<open>Canvases, contexts and layers\<close>

subsection \<open>The transform of a 2D context\<close>

text \<open>
  The current transformation matrix \<open>(a, b, c, d, e, f)\<close> of a context maps
  \<open>(x, y)\<close> to \<open>(a x + c y + e, b x + d y + f)\<close>. \<open>translate\<close>, \<open>scale\<close> and
  \<open>rotate\<close> multiply it on the right, as the canvas standard defines them.
\<close>

type_synonym matrix = "real \<times> real \<times> real \<times> real \<times> real \<times> real"

definition mat_mul :: "matrix \<Rightarrow> matrix \<Rightarrow> matrix" where
  "mat_mul m n =
     (case m of (a1, b1, c1, d1, e1, f1) \<Rightarrow> (case n of (a2, b2, c2, d2, e2, f2) \<Rightarrow>
        (a1 * a2 + c1 * b2, b1 * a2 + d1 * b2,
         a1 * c2 + c1 * d2, b1 * c2 + d1 * d2,
         a1 * e2 + c1 * f2 + e1, b1 * e2 + d1 * f2 + f1)))"

definition identity :: matrix where
  "identity = (1, 0, 0, 1, 0, 0)"

definition translation :: "real \<Rightarrow> real \<Rightarrow> matrix" where
  "translation tx ty = (1, 0, 0, 1, tx, ty)"

definition scaling :: "real \<Rightarrow> real \<Rightarrow> matrix" where
  "scaling sx sy = (sx, 0, 0, sy, 0, 0)"

definition rotation_by :: "real \<Rightarrow> matrix" where
  "rotation_by angle = (cos angle, sin angle, - sin angle, cos angle, 0, 0)"

subsection \<open>Canvases\<close>

text \<open>
  A canvas with the state of its 2D context. Its bitmap is kept as the list of the
  painting calls made on it, each with the context state it was made under; what a call
  does to the pixels is the browser's part. An image drawn onto a canvas is recorded
  with the content the source canvas had at that moment.
\<close>

datatype paint =
    Paint (p_transform: matrix) (p_globalAlpha: real) (p_composite: string)
          (p_fillStyle: string) (p_call: paint_call)
and paint_call =
    ClearRect real real real real
  | FillRect real real real real
  | Fill "(real \<times> real \<times> real \<times> real) list"
  | DrawImage bitmap "real list"
  | TransparentPixels "Color list" real real
and bitmap =
    Bitmap real real "paint list"

record html_canvas =
  cwidth :: real
  cheight :: real
  transform :: matrix
  globalAlpha :: real
  globalCompositeOperation :: string
  fillStyle :: string
  subpaths :: "(real \<times> real \<times> real \<times> real) list"
  painted :: "paint list"

definition createElement_canvas :: "real \<Rightarrow> real \<Rightarrow> html_canvas" where
  "createElement_canvas w h =
     \<lparr>cwidth = w, cheight = h, transform = identity, globalAlpha = 1,
      globalCompositeOperation = ''source-over'', fillStyle = ''#000000'',
      subpaths = [], painted = []\<rparr>"

text \<open>Assigning \<open>canvas.width\<close> or \<open>canvas.height\<close> clears the bitmap and resets the context.\<close>

definition set_width :: "real \<Rightarrow> html_canvas \<Rightarrow> html_canvas" where
  "set_width w c = createElement_canvas w (cheight c)"

definition set_height :: "real \<Rightarrow> html_canvas \<Rightarrow> html_canvas" where
  "set_height h c = createElement_canvas (cwidth c) h"

definition bitmap_of :: "html_canvas \<Rightarrow> bitmap" where
  "bitmap_of c = Bitmap (cwidth c) (cheight c) (painted c)"

text \<open>A canvas of positive width and height; a browser refuses to draw from any other.\<close>

definition has_pixels :: "html_canvas \<Rightarrow> bool" where
  "has_pixels c = (0 < cwidth c \<and> 0 < cheight c)"

definition paint_with :: "paint_call \<Rightarrow> html_canvas \<Rightarrow> html_canvas" where
  "paint_with call c =
     c\<lparr>painted := painted c @
          [Paint (transform c) (globalAlpha c) (globalCompositeOperation c) (fillStyle c) call]\<rparr>"

definition ctx_resetTransform :: "html_canvas \<Rightarrow> html_canvas" where
  "ctx_resetTransform c = c\<lparr>transform := identity\<rparr>"

definition ctx_translate :: "real \<Rightarrow> real \<Rightarrow> html_canvas \<Rightarrow> html_canvas" where
  "ctx_translate tx ty c = c\<lparr>transform := mat_mul (transform c) (translation tx ty)\<rparr>"

definition ctx_scale :: "real \<Rightarrow> real \<Rightarrow> html_canvas \<Rightarrow> html_canvas" where
  "ctx_scale sx sy c = c\<lparr>transform := mat_mul (transform c) (scaling sx sy)\<rparr>"

definition ctx_rotate :: "real \<Rightarrow> html_canvas \<Rightarrow> html_canvas" where
  "ctx_rotate angle c = c\<lparr>transform := mat_mul (transform c) (rotation_by angle)\<rparr>"

definition ctx_clearRect :: "real \<Rightarrow> real \<Rightarrow> real \<Rightarrow> real \<Rightarrow> html_canvas \<Rightarrow> html_canvas" where
  "ctx_clearRect x y w h c = paint_with (ClearRect x y w h) c"

definition ctx_fillRect :: "real \<Rightarrow> real \<Rightarrow> real \<Rightarrow> real \<Rightarrow> html_canvas \<Rightarrow> html_canvas" where
  "ctx_fillRect x y w h c = paint_with (FillRect x y w h) c"

definition ctx_rect :: "real \<Rightarrow> real \<Rightarrow> real \<Rightarrow> real \<Rightarrow> html_canvas \<Rightarrow> html_canvas" where
  "ctx_rect x y w h c = c\<lparr>subpaths := subpaths c @ [(x, y, w, h)]\<rparr>"

definition ctx_fill :: "html_canvas \<Rightarrow> html_canvas" where
  "ctx_fill c = paint_with (Fill (subpaths c)) c"

definition ctx_drawImage :: "bitmap \<Rightarrow> real list \<Rightarrow> html_canvas \<Rightarrow> html_canvas" where
  "ctx_drawImage bmp args c = paint_with (DrawImage bmp args) c"

text \<open>Assigning \<open>fillStyle\<close>: a value that is no colour (\<open>null\<close>) is ignored.\<close>

definition set_fillStyle :: "string option \<Rightarrow> html_canvas \<Rightarrow> html_canvas" where
  "set_fillStyle style c = (case style of None \<Rightarrow> c | Some s \<Rightarrow> c\<lparr>fillStyle := s\<rparr>)"

text \<open>
  The canvases of a page live in a store and are named by their address; a layer holds
  addresses of canvases in the store. A new canvas gets the next free address.
\<close>

type_synonym ref = nat

type_synonym store = "html_canvas list"

definition alloc :: "html_canvas \<Rightarrow> store \<Rightarrow> ref \<times> store" where
  "alloc c st = (length st, st @ [c])"

definition on_canvas :: "ref \<Rightarrow> (html_canvas \<Rightarrow> html_canvas) \<Rightarrow> store \<Rightarrow> store" where
  "on_canvas r f st = st[r := f (st ! r)]"

text \<open>
  Modelled from the spec: \<open>Utils.cloneCanvas\<close> (\<open>libs/Utils.js\<close> is not part of the
  sources at hand) is the raster copy of section 3: a new canvas of the same size with
  the same content.
\<close>

definition cloneCanvas :: "ref \<Rightarrow> store \<Rightarrow> ref \<times> store" where
  "cloneCanvas r st =
     alloc ((createElement_canvas (cwidth (st ! r)) (cheight (st ! r)))
              \<lparr>painted := painted (st ! r)\<rparr>) st"

subsection \<open>Layers\<close>

text \<open>
  Modelled from the spec: the two blend modes of \<open>CONSTANTS.BLEND_MODES\<close> the layer
  code names (\<open>constants.js\<close> is not part of the sources at hand).
\<close>

definition SOURCE_OVER :: string where
  "SOURCE_OVER = ''source-over''"

definition SOURCE_IN :: string where
  "SOURCE_IN = ''source-in''"

record decoded_image =
  src :: string
  naturalWidth :: real
  naturalHeight :: real

text \<open>
  The fields of a \<open>Layer\<close>, in the order the constructor sets them. \<open>view\<close> is passed to
  the functions that use it. \<open>null\<close> and \<open>undefined\<close> are \<open>None\<close>. The field \<open>id\<close>
  is \<open>layer_id\<close> here and the field \<open>mask\<close> is \<open>mask_canvas\<close>; the method
  \<open>rotate\<close> is \<open>rotate_layer\<close>.
\<close>

record layer =
  layer_id :: string
  canvas :: ref
  source :: ref
  preview :: ref
  position :: "real \<times> real"
  scale :: real
  rotation :: real
  center :: "real \<times> real"
  mirror :: real
  flipped :: bool
  img :: "decoded_image option"
  sourceImg :: "string option"
  active :: bool
  providesMask :: bool
  renderedMask :: ref
  mask_canvas :: "ref option"
  sourceMask :: "ref option"
  maskCompositeOperation :: string
  customMask :: bool
  appliedMaskIds :: "string list"
  customMaskLayers :: bool
  alpha :: real
  compositeOperation :: string
  visible :: bool
  previousColor :: "string option"
  color :: "string option"
  colorLayer :: bool
  previousAlphaPixelColors :: "Color list option"
  alphaPixelColors :: "Color list"
  tintLayer :: bool
  tintColor :: "string option"

text \<open>
  The view that owns the layer stack is not part of the sources at hand. The layer code
  reads \<open>view.layers\<close> and \<open>view.maskIds\<close> and calls \<open>view.isOriginLayerHigher\<close> and
  \<open>view.getMaskLayer\<close>.
\<close>

record view =
  layers :: "layer list"
  maskIds :: "string list"
  isOriginLayerHigher :: "string \<Rightarrow> string \<Rightarrow> bool"

text \<open>
  Modelled from the spec: \<open>view.getMaskLayer\<close> is the stack's lookup of a layer by its
  id (section 3, LayerStack).
\<close>

definition getMaskLayer :: "view \<Rightarrow> string \<Rightarrow> layer option" where
  "getMaskLayer v maskId = find (\<lambda>l. layer_id l = maskId) (layers v)"

text \<open>
  Modelled from the spec: \<open>isOriginLayerHigher(idA, idB)\<close> is true if \<open>idA\<close> sits
  above \<open>idB\<close> in draw order (section 3, LayerStack). The stack is listed bottom first.
  The layer code itself takes the function from the view; this reading of it serves the
  example stacks.
\<close>

fun stack_index :: "layer list \<Rightarrow> string \<Rightarrow> nat option" where
  "stack_index [] i = None"
| "stack_index (l # ls) i =
     (if layer_id l = i then Some 0 else map_option Suc (stack_index ls i))"

definition stack_isOriginLayerHigher :: "layer list \<Rightarrow> string \<Rightarrow> string \<Rightarrow> bool" where
  "stack_isOriginLayerHigher stack idA idB =
     (case stack_index stack idA of
        None \<Rightarrow> False
      | Some a \<Rightarrow> (case stack_index stack idB of None \<Rightarrow> False | Some b \<Rightarrow> b < a))"

text \<open>The constructor. \<open>newId\<close> is the value \<open>Utils.generateUUID()\<close> returns.\<close>

definition Layer_constructor ::
  "string \<Rightarrow> ref \<Rightarrow> string option \<Rightarrow> bool \<Rightarrow> decoded_image option \<Rightarrow> string option
     \<Rightarrow> store \<Rightarrow> layer \<times> store" where
  "Layer_constructor newId canvas_ref tint_color tint_layer image_opt colour st =
     (case cloneCanvas canvas_ref st of (source_ref, st1) \<Rightarrow>
      (case cloneCanvas canvas_ref st1 of (preview_ref, st2) \<Rightarrow>
       (case alloc (createElement_canvas (cwidth (st2 ! source_ref))
                      (cheight (st2 ! source_ref))) st2 of (renderedMask_ref, st3) \<Rightarrow>
         (\<lparr>layer_id = newId,
           canvas = canvas_ref,
           source = source_ref,
           preview = preview_ref,
           position = (0, 0),
           scale = 1,
           rotation = 0,
           center = (cwidth (st ! canvas_ref) / 2, cheight (st ! canvas_ref) / 2),
           mirror = 1,
           flipped = False,
           img = image_opt,
           sourceImg = map_option src image_opt,
           active = False,
           providesMask = False,
           renderedMask = renderedMask_ref,
           mask_canvas = None,
           sourceMask = None,
           maskCompositeOperation = SOURCE_IN,
           customMask = False,
           appliedMaskIds = [],
           customMaskLayers = False,
           alpha = 1.0,
           compositeOperation = SOURCE_OVER,
           visible = True,
           previousColor = None,
           color = colour,
           colorLayer = (colour \<noteq> None),
           previousAlphaPixelColors = None,
           alphaPixelColors = [],
           tintLayer = tint_layer,
           tintColor = tint_color\<rparr>, st3))))"

text \<open>\<open>setColor(hexColorString)\<close>; \<open>this.width\<close> and \<open>this.height\<close> are the canvas's.\<close>

definition setColor :: "string option \<Rightarrow> layer \<times> store \<Rightarrow> layer \<times> store" where
  "setColor hexColorString ls =
     (case ls of (this, st) \<Rightarrow>
        if \<not> colorLayer this then (this, st)
        else (let st1 = on_canvas (canvas this)
                          (\<lambda>context.
                             ctx_fill
                               (ctx_rect 0 0 (cwidth (st ! canvas this)) (cheight (st ! canvas this))
                                  (set_fillStyle hexColorString context))) st
              in case cloneCanvas (canvas this) st1 of (source_ref, st2) \<Rightarrow>
                   (this\<lparr>color := hexColorString, source := source_ref\<rparr>, st2)))"

text \<open>
  \<open>Layer.fromColor({ view, color, width, height })\<close>. A size that is \<open>undefined\<close>
  makes the canvas dimension 0.
\<close>

definition fromColor ::
  "string \<Rightarrow> string option \<Rightarrow> real option \<Rightarrow> real option \<Rightarrow> store \<Rightarrow> layer \<times> store" where
  "fromColor newId colour w h st =
     (case alloc (createElement_canvas (case w of None \<Rightarrow> 0 | Some x \<Rightarrow> x)
                                       (case h of None \<Rightarrow> 0 | Some y \<Rightarrow> y)) st of
        (canvas_ref, st1) \<Rightarrow>
          setColor colour (Layer_constructor newId canvas_ref None False None colour st1))"

subsection \<open>Methods that only set fields\<close>

text \<open>
  A method takes the layer together with the store of canvases and returns both, so that
  what it leaves alone can be read off the result.
\<close>

definition activate :: "layer \<times> store \<Rightarrow> layer \<times> store" where
  "activate ls = (case ls of (this, st) \<Rightarrow> (this\<lparr>active := True\<rparr>, st))"

definition deactivate :: "layer \<times> store \<Rightarrow> layer \<times> store" where
  "deactivate ls = (case ls of (this, st) \<Rightarrow> (this\<lparr>active := False\<rparr>, st))"

definition translate :: "real \<Rightarrow> real \<Rightarrow> layer \<times> store \<Rightarrow> layer \<times> store" where
  "translate dx dy ls =
     (case ls of (this, st) \<Rightarrow>
        (this\<lparr>position := (fst (position this) - dx, snd (position this) - dy)\<rparr>, st))"

definition setScale :: "real \<Rightarrow> layer \<times> store \<Rightarrow> layer \<times> store" where
  "setScale factor ls = (case ls of (this, st) \<Rightarrow> (this\<lparr>scale := factor\<rparr>, st))"

definition rotate_layer :: "real \<Rightarrow> layer \<times> store \<Rightarrow> layer \<times> store" where
  "rotate_layer degree ls =
     (case ls of (this, st) \<Rightarrow> (this\<lparr>rotation := rotation this + degree * 2\<rparr>, st))"

subsection \<open>The transform before drawing\<close>

text \<open>
  \<open>applyTransformations(context, alpha = true)\<close>. \<open>TO_RADIANS\<close> is a constant of
  \<open>constants.js\<close> and an argument here.
\<close>

definition applyTransformations ::
  "real \<Rightarrow> layer \<Rightarrow> store \<Rightarrow> bool \<Rightarrow> html_canvas \<Rightarrow> html_canvas" where
  "applyTransformations TO_RADIANS this st alpha_arg context =
     (let c1 = ctx_resetTransform context;
          c2 = ctx_clearRect 0 0 (cwidth (st ! source this)) (cheight (st ! source this)) c1;
          c3 = ctx_translate (fst (center this)) (snd (center this)) c2;
          c4 = ctx_scale (mirror this * 1) 1 c3;
          c5 = ctx_rotate (rotation this * TO_RADIANS) c4;
          c6 = ctx_translate (- fst (center this)) (- snd (center this)) c5
      in if alpha_arg then c6\<lparr>globalAlpha := alpha this\<rparr> else c6)"

text \<open>
  The composed transform as section 4.2 of the specification words it: reset to
  identity, translate to the centre, mirror as a horizontal scale, rotate by the degrees
  turned into radians, translate back by minus the centre.
\<close>

definition compose :: "real \<times> real \<Rightarrow> real \<Rightarrow> real \<Rightarrow> real \<Rightarrow> matrix" where
  "compose centre mirrorSign rotationDegrees TO_RADIANS =
     mat_mul
       (mat_mul
          (mat_mul
             (mat_mul identity (translation (fst centre) (snd centre)))
             (scaling mirrorSign 1))
          (rotation_by (rotationDegrees * TO_RADIANS)))
       (translation (- fst centre) (- snd centre))"

text \<open>The transforms under which images were drawn onto a canvas, oldest first.\<close>

fun is_DrawImage :: "paint_call \<Rightarrow> bool" where
  "is_DrawImage (DrawImage bmp args) = True"
| "is_DrawImage other = False"

definition draw_transforms :: "html_canvas \<Rightarrow> matrix list" where
  "draw_transforms c = map p_transform (filter (\<lambda>p. is_DrawImage (p_call p)) (painted c))"

text \<open>
  \<open>recalculateMask()\<close>. \<open>this.renderedMask\<close> is a canvas from the constructor on and
  never \<open>null\<close>, so the test is on \<open>this.mask\<close> and \<open>this.customMask\<close>.
\<close>

definition recalculateMask :: "real \<Rightarrow> layer \<times> store \<Rightarrow> layer \<times> store" where
  "recalculateMask TO_RADIANS ls =
     (case ls of (this, st) \<Rightarrow>
        (case mask_canvas this of
           None \<Rightarrow> (this, st)
         | Some mask_ref \<Rightarrow>
             if customMask this then (this, st)
             else (let st1 = on_canvas (renderedMask this)
                               (applyTransformations TO_RADIANS this st False) st;
                       st2 = on_canvas (renderedMask this)
                               (ctx_drawImage (bitmap_of (st1 ! mask_ref))
                                  [fst (position this), snd (position this),
                                   cwidth (st1 ! source this) * scale this,
                                   cheight (st1 ! source this) * scale this]) st1
                   in (this, st2))))"

text \<open>
  \<open>applyCustomMask(mask, callback)\<close>; the callback belongs to the mask editor and is
  not modelled.
\<close>

definition applyCustomMask :: "ref \<Rightarrow> layer \<times> store \<Rightarrow> layer \<times> store" where
  "applyCustomMask mask_ref ls =
     (case ls of (this, st) \<Rightarrow>
        (this\<lparr>customMask := True, mask_canvas := Some mask_ref\<rparr>,
         on_canvas (renderedMask this)
           (ctx_drawImage (bitmap_of (st ! mask_ref))
              [0, 0, cwidth (st ! canvas this), cheight (st ! canvas this)]) st))"

text \<open>\<open>applyTint(context)\<close>, with the address of the canvas \<open>context\<close> belongs to.\<close>

definition applyTint :: "real \<Rightarrow> layer \<Rightarrow> ref \<Rightarrow> store \<Rightarrow> store" where
  "applyTint TO_RADIANS this context_ref st =
     (case cloneCanvas (source this) st of (tintCanvas, st1) \<Rightarrow>
        (let st2 = on_canvas tintCanvas
                     (\<lambda>c. set_height (cheight (st1 ! source this))
                            (set_width (cwidth (st1 ! source this)) c)) st1;
             st3 = on_canvas tintCanvas (applyTransformations TO_RADIANS this st2 False) st2;
             st4 = on_canvas tintCanvas
                     (ctx_drawImage (bitmap_of (st3 ! source this)) [0, 0]) st3;
             st5 = on_canvas tintCanvas
                     (\<lambda>c. (ctx_fillRect 0 0 (cwidth (st4 ! source this))
                                (cheight (st4 ! source this))
                                (set_fillStyle (tintColor this)
                                   (c\<lparr>globalCompositeOperation := ''source-atop''\<rparr>)))
                           \<lparr>globalCompositeOperation := ''source-over''\<rparr>) st4
         in on_canvas context_ref
              (\<lambda>c. (ctx_drawImage (bitmap_of (st5 ! tintCanvas)) [0, 0]
                       (c\<lparr>globalCompositeOperation := ''color''\<rparr>))
                    \<lparr>globalCompositeOperation := ''source-over''\<rparr>) st5))"

subsection \<open>\<open>redraw()\<close>\<close>

text \<open>
  The loop over the mask ids, lines 527 to 546: every mask layer that passes the test
  has its rendered mask drawn onto \<open>this.canvas\<close>, and the composite operation of that
  context becomes \<open>maskCompositeOperation\<close>.
\<close>

definition draw_mask :: "layer \<Rightarrow> layer \<Rightarrow> store \<Rightarrow> store" where
  "draw_mask this maskLayer st =
     on_canvas (canvas this)
       (\<lambda>context.
          (ctx_drawImage (bitmap_of (st ! renderedMask maskLayer))
             [0, 0, cwidth (st ! canvas maskLayer), cheight (st ! canvas maskLayer),
              0, 0, cwidth (st ! canvas this), cheight (st ! canvas this)] context)
          \<lparr>globalCompositeOperation := maskCompositeOperation this\<rparr>) st"

fun redraw_masks :: "view \<Rightarrow> layer \<Rightarrow> string list \<Rightarrow> store \<Rightarrow> store" where
  "redraw_masks v this [] st = st"
| "redraw_masks v this (maskId # rest) st =
     (case getMaskLayer v maskId of
        None \<Rightarrow> redraw_masks v this rest st
      | Some maskLayer \<Rightarrow>
          if customMaskLayers this
             \<or> (\<not> customMaskLayers this \<and> isOriginLayerHigher v maskId (layer_id this))
          then redraw_masks v this rest (draw_mask this maskLayer st)
          else redraw_masks v this rest st)"

text \<open>The mask layers whose rendered mask that loop draws, in the order it draws them.\<close>

fun appliedMaskLayers :: "view \<Rightarrow> layer \<Rightarrow> string list \<Rightarrow> layer list" where
  "appliedMaskLayers v this [] = []"
| "appliedMaskLayers v this (maskId # rest) =
     (case getMaskLayer v maskId of
        None \<Rightarrow> appliedMaskLayers v this rest
      | Some maskLayer \<Rightarrow>
          if customMaskLayers this
             \<or> (\<not> customMaskLayers this \<and> isOriginLayerHigher v maskId (layer_id this))
          then maskLayer # appliedMaskLayers v this rest
          else appliedMaskLayers v this rest)"

text \<open>
  \<open>applyTransparentPixels(context)\<close> as a call on a canvas: it reads the bitmap back,
  runs the colour-key pass over the bytes and writes them again.
\<close>

definition ctx_applyTransparentPixels :: "layer \<Rightarrow> store \<Rightarrow> html_canvas \<Rightarrow> html_canvas" where
  "ctx_applyTransparentPixels this st context =
     (if alphaPixelColors this = [] then context
      else paint_with (TransparentPixels (alphaPixelColors this)
                         (cwidth (st ! canvas this)) (cheight (st ! canvas this))) context)"

text \<open>The second \<open>forEach\<close> of \<open>redraw\<close>, for one of the two contexts.\<close>

definition redraw_content :: "layer \<Rightarrow> ref \<Rightarrow> ref \<Rightarrow> store \<Rightarrow> store" where
  "redraw_content this original target st =
     (let st1 = on_canvas target (ctx_translate 0 0) st;
          st2 = (if colorLayer this
                 then on_canvas target
                        (\<lambda>c. ctx_fill (ctx_rect 0 0 (cwidth (st1 ! canvas this))
                                         (cheight (st1 ! canvas this))
                                         (set_fillStyle (color this) c))) st1
                 else on_canvas target
                        (\<lambda>c. ctx_applyTransparentPixels this st1
                               (ctx_drawImage (bitmap_of (st1 ! original))
                                  [fst (position this), snd (position this),
                                   cwidth (st1 ! source this) * scale this,
                                   cheight (st1 ! source this) * scale this] c)) st1)
      in on_canvas target ctx_resetTransform st2)"

text \<open>
  \<open>redraw()\<close>. The call \<open>this.applyTransformations(originalContext, this.source, false)\<close>
  binds the parameter \<open>alpha\<close> to the canvas \<open>this.source\<close>, which counts as true.
\<close>

definition redraw :: "real \<Rightarrow> view \<Rightarrow> layer \<times> store \<Rightarrow> layer \<times> store" where
  "redraw TO_RADIANS v ls =
     (case ls of (this, st) \<Rightarrow>
        (case cloneCanvas (source this) st of (original, st1) \<Rightarrow>
           (let st2 = on_canvas original (applyTransformations TO_RADIANS this st1 True) st1;
                st3 = on_canvas original
                        (ctx_drawImage (bitmap_of (st2 ! source this)) [0, 0]) st2;
                st4 = (if tintLayer this then applyTint TO_RADIANS this original st3 else st3);
                st5 = on_canvas original ctx_resetTransform st4;
                prepare = (\<lambda>cContext.
                             ctx_resetTransform
                               (ctx_clearRect 0 0 (cwidth (st5 ! source this))
                                  (cheight (st5 ! source this))
                                  (cContext\<lparr>globalCompositeOperation :=
                                              compositeOperation this\<rparr>)));
                st6 = on_canvas (preview this) prepare (on_canvas (canvas this) prepare st5);
                ids = (if customMaskLayers this then appliedMaskIds this else maskIds v);
                st7 = redraw_masks v this ids st6;
                st8 = redraw_content this original (preview this)
                        (redraw_content this original (canvas this) st7)
            in (this, st8))))"

text \<open>
  What a call has done to a canvas, read off the canvas before and after: the painting
  calls it added, and the images among them, oldest first.
\<close>

fun drawn_image :: "paint \<Rightarrow> bitmap option" where
  "drawn_image (Paint m a c f (DrawImage bmp args)) = Some bmp"
| "drawn_image (Paint m a c f other) = None"

definition paints_added :: "html_canvas \<Rightarrow> html_canvas \<Rightarrow> paint list" where
  "paints_added before after = drop (length (painted before)) (painted after)"

definition images_drawn :: "html_canvas \<Rightarrow> html_canvas \<Rightarrow> bitmap list" where
  "images_drawn before after = List.map_filter drawn_image (paints_added before after)"

definition flip :: "real \<Rightarrow> view \<Rightarrow> layer \<times> store \<Rightarrow> layer \<times> store" where
  "flip TO_RADIANS v ls =
     (case ls of (this, st) \<Rightarrow>
        redraw TO_RADIANS v (this\<lparr>mirror := mirror this * (- 1), flipped := \<not> flipped this\<rparr>, st))"

subsection \<open>\<open>resetMasks()\<close>\<close>

text \<open>Adding to a JavaScript \<open>Set\<close> of strings.\<close>

definition set_add :: "string \<Rightarrow> string list \<Rightarrow> string list" where
  "set_add s xs = (if s \<in> set xs then xs else xs @ [s])"

text \<open>
  \<open>this.sourceMask\<close> is \<open>undefined\<close> until \<open>createMask\<close> has run; a raster copy of
  no canvas cannot be made, and the call throws at line 362. By then the flags are
  cleared and \<open>appliedMaskIds\<close> is rebuilt, so the error comes with the layer and the
  store as the throw leaves them.
\<close>

definition resetMasks ::
  "real \<Rightarrow> view \<Rightarrow> layer \<times> store \<Rightarrow> js_error \<times> layer \<times> store + layer \<times> store" where
  "resetMasks TO_RADIANS v ls =
     (case ls of (this, st) \<Rightarrow>
        (let this1 = this\<lparr>customMaskLayers := False, appliedMaskIds := []\<rparr>;
             this2 = fold (\<lambda>l t. if providesMask l
                                     \<and> isOriginLayerHigher v (layer_id l) (layer_id t)
                                  then t\<lparr>appliedMaskIds := set_add (layer_id l) (appliedMaskIds t)\<rparr>
                                  else t) (layers v) this1;
             this3 = this2\<lparr>compositeOperation := SOURCE_OVER,
                           maskCompositeOperation := SOURCE_IN,
                           customMask := False\<rparr>
         in case sourceMask this3 of
              None \<Rightarrow> Inl (TypeError, this3, st)
            | Some sourceMask_ref \<Rightarrow>
                (case cloneCanvas sourceMask_ref st of (mask_ref, st1) \<Rightarrow>
                   Inr (redraw TO_RADIANS v (this3\<lparr>mask_canvas := Some mask_ref\<rparr>, st1)))))"

subsection \<open>\<open>clone()\<close>\<close>

text \<open>
  \<open>Layer.fromImage\<close> decodes settings and builds masks through modules that are not
  part of the sources at hand; the layer it returns is an argument. \<open>Layer.fromColor\<close>
  reads the keys \<open>width\<close> and \<open>height\<close>, and \<open>colorOptions\<close> carries \<open>canvasWidth\<close>
  and \<open>canvasHeight\<close>, so both sizes reach it as \<open>undefined\<close>. The result is the
  layer \<open>this\<close> as \<open>clone\<close> leaves it, the new layer, and the store.
\<close>

definition clone ::
  "(decoded_image \<Rightarrow> real \<Rightarrow> real \<Rightarrow> string option \<Rightarrow> bool \<Rightarrow> store \<Rightarrow> layer \<times> store)
     \<Rightarrow> string \<Rightarrow> layer \<times> store \<Rightarrow> layer \<times> layer \<times> store" where
  "clone fromImage newId ls =
     (case ls of (this, st) \<Rightarrow>
        (case (case img this of
                 Some i \<Rightarrow> fromImage i (cheight (st ! source this)) (cwidth (st ! source this))
                             (tintColor this) (tintLayer this) st
               | None \<Rightarrow> fromColor newId (color this) None None st) of
           (newLayer0, st1) \<Rightarrow>
             (let newLayer1 = newLayer0\<lparr>active := False,
                                        scale := scale this,
                                        rotation := rotation this,
                                        position := position this,
                                        center := center this,
                                        mirror := mirror this,
                                        flipped := flipped this,
                                        visible := visible this,
                                        alpha := alpha this\<rparr>
              in case (case mask_canvas this of
                         None \<Rightarrow> (newLayer1, st1)
                       | Some m \<Rightarrow> (case cloneCanvas m st1 of
                                       (r, st') \<Rightarrow> (newLayer1\<lparr>mask_canvas := Some r\<rparr>, st'))) of
                   (newLayer2, st2) \<Rightarrow>
                     (case (case sourceMask this of
                              None \<Rightarrow> (this, st2)
                            | Some m \<Rightarrow> (case cloneCanvas m st2 of
                                            (r, st') \<Rightarrow> (this\<lparr>sourceMask := Some r\<rparr>, st'))) of
                        (this1, st3) \<Rightarrow>
                          (case cloneCanvas (renderedMask this1) st3 of
                             (r, st4) \<Rightarrow>
                               (this1\<lparr>renderedMask := r\<rparr>,
                                newLayer2\<lparr>customMask := customMask this,
                                          customMaskLayers := customMaskLayers this,
                                          appliedMaskIds := appliedMaskIds this,
                                          compositeOperation := compositeOperation this,
                                          maskCompositeOperation := maskCompositeOperation this,
                                          alphaPixelColors := alphaPixelColors this,
                                          previousAlphaPixelColors :=
                                            (case previousAlphaPixelColors this of
                                               None \<Rightarrow> previousAlphaPixelColors newLayer2
                                             | Some p \<Rightarrow> Some p)\<rparr>,
                                st4))))))"

subsection \<open>An example stack\<close>

text \<open>
  Three colour layers A, B and C, created in this order on an empty page and stacked
  with A at the bottom; A and C provide masks.
\<close>

text \<open>The canvas of a new colour layer: one fill of the whole canvas.\<close>

definition filled_canvas :: "real \<Rightarrow> real \<Rightarrow> string \<Rightarrow> html_canvas" where
  "filled_canvas w h c =
     \<lparr>cwidth = w, cheight = h, transform = identity, globalAlpha = 1,
      globalCompositeOperation = ''source-over'', fillStyle = c,
      subpaths = [(0, 0, w, h)],
      painted = [Paint identity 1 ''source-over'' c (Fill [(0, 0, w, h)])]\<rparr>"

definition store_A :: store where
  "store_A = snd (fromColor ''A'' (Some ''#202020'') (Some 2) (Some 2) [])"

definition layer_A :: layer where
  "layer_A = (fst (fromColor ''A'' (Some ''#202020'') (Some 2) (Some 2) []))
               \<lparr>providesMask := True\<rparr>"

definition store_B :: store where
  "store_B = snd (fromColor ''B'' (Some ''#808080'') (Some 2) (Some 2) store_A)"

definition layer_B :: layer where
  "layer_B = fst (fromColor ''B'' (Some ''#808080'') (Some 2) (Some 2) store_A)"

definition store_C :: store where
  "store_C = snd (fromColor ''C'' (Some ''#f0f0f0'') (Some 2) (Some 2) store_B)"

definition layer_C :: layer where
  "layer_C = (fst (fromColor ''C'' (Some ''#f0f0f0'') (Some 2) (Some 2) store_B))
               \<lparr>providesMask := True\<rparr>"

definition example_view :: view where
  "example_view =
     \<lparr>layers = [layer_A, layer_B, layer_C],
      maskIds = [''A'', ''C''],
      isOriginLayerHigher = stack_isOriginLayerHigher [layer_A, layer_B, layer_C]\<rparr>"

text \<open>
  The same stack once the mask editor has handed A its own canvas (canvas 0) as custom
  mask and C its own (canvas 10): the two rendered masks differ.
\<close>

definition masked_A :: "layer \<times> store" where
  "masked_A = applyCustomMask 0 (layer_A, store_C)"

definition masked_C :: "layer \<times> store" where
  "masked_C = applyCustomMask 10 (layer_C, snd masked_A)"

definition masked_view :: view where
  "masked_view =
     \<lparr>layers = [fst masked_A, layer_B, fst masked_C],
      maskIds = [''A'', ''C''],
      isOriginLayerHigher = stack_isOriginLayerHigher [fst masked_A, layer_B, fst masked_C]\<rparr>"

text \<open>
  Layer B once \<open>createMask\<close> has left a source mask (canvas 1) and the mask editor has
  handed in a custom mask (canvas 0).
\<close>

definition painted_B :: "layer \<times> store" where
  "painted_B = applyCustomMask 0 (layer_B\<lparr>sourceMask := Some 1\<rparr>, store_C)"

section \<open>The classifier handed to the contour tracer\<close>

lemma js_get_int:
  "n < length xs \<Longrightarrow> js_get xs (int n) = Some (xs ! n)"
  by (simp add: js_get_def)

lemma js_get_outside:
  "length xs \<le> n \<Longrightarrow> js_get xs (int n) = None"
  by (simp add: js_get_def)

lemma alpha_at_index:
  assumes "wf_imagedata pixels" "x < width pixels" "y < height pixels"
  shows "js_get (data pixels) ((((int y * int (width pixels)) + int x) * 4) + 3)
         = Some (alpha_at pixels x y)"
proof -
  let ?w = "width pixels"
  have "y * ?w + x < ?w * height pixels"
  proof -
    have "y * ?w + x < y * ?w + ?w" using assms(2) by simp
    also have "\<dots> = (Suc y) * ?w" by simp
    also have "\<dots> \<le> height pixels * ?w" using assms(3) by (intro mult_le_mono1) simp
    finally show ?thesis by (simp add: mult.commute)
  qed
  then have bound: "4 * (y * ?w + x) + 3 < length (data pixels)"
    using assms(1) by (simp add: wf_imagedata_def)
  have idx: "(((int y * int ?w) + int x) * 4) + 3 = int (4 * (y * ?w + x) + 3)"
    by simp
  have "alpha_at pixels x y = data pixels ! (4 * (y * ?w + x) + 3)"
    using assms(2) bound
    by (simp add: alpha_at_def pixel_at_def row_at_def algebra_simps)
  then show ?thesis
    by (simp only: idx js_get_int [OF bound])
qed

text \<open>
  For a well-formed buffer and a coordinate inside it, the byte \<open>isTransparent\<close> reads
  is the alpha byte of pixel \<open>(x, y)\<close>.
\<close>

lemma isTransparent_reads_alpha:
  assumes "wf_imagedata pixels" "x < width pixels" "y < height pixels"
  shows "isTransparent t pixels (int x) (int y) = js_lt (Some t) (Some (alpha_at pixels x y))"
  using alpha_at_index [OF assms] by (simp add: isTransparent_def)

text \<open>
  C1. The claim: the classifier handed to the contour tracer returns true exactly when
  the alpha byte at \<open>(x, y)\<close> is below the threshold. On the code it is the other way
  round: \<open>isTransparent\<close> returns true exactly when the alpha byte is strictly above
  the threshold, so true marks the opaque pixels, the inside of the shape whose edge
  \<open>createOriginalMask\<close> walks, and a byte equal to the threshold gives false.
\<close>

theorem isTransparent_iff_alpha_above_threshold:
  assumes "wf_imagedata pixels" "x < width pixels" "y < height pixels"
  shows "isTransparent TRANSPARENCY_THRESHOLD pixels (int x) (int y)
         \<longleftrightarrow> TRANSPARENCY_THRESHOLD < alpha_at pixels x y"
  using isTransparent_reads_alpha [OF assms] by (simp add: js_lt_def)

theorem isTransparent_iff_alpha_above_threshold_witness:
  "isTransparent 254 \<lparr>width = 2, height = 1, data = [10, 20, 30, 255, 0, 0, 0, 254]\<rparr> 0 0
   \<and> \<not> isTransparent 254 \<lparr>width = 2, height = 1, data = [10, 20, 30, 255, 0, 0, 0, 254]\<rparr> 1 0"
proof -
  let ?p = "\<lparr>width = 2, height = 1, data = [10, 20, 30, 255, 0, 0, 0, 254]\<rparr>"
  have wf: "wf_imagedata ?p" by (simp add: wf_imagedata_def)
  show ?thesis
    using isTransparent_iff_alpha_above_threshold [OF wf, of 0 0 254]
          isTransparent_iff_alpha_above_threshold [OF wf, of 1 0 254]
    by (simp add: alpha_at_def pixel_at_def row_at_def)
qed

text \<open>
  The claim as stated fails on a fully opaque pixel: with threshold 254 and alpha byte
  255 the classifier answers true, and 255 is not below 254.
\<close>

theorem isTransparent_below_threshold_counterexample:
  "\<not> (isTransparent 254 \<lparr>width = 1, height = 1, data = [0, 0, 0, 255]\<rparr> 0 0
       \<longleftrightarrow> alpha_at \<lparr>width = 1, height = 1, data = [0, 0, 0, 255]\<rparr> 0 0 < 254)"
  by (simp add: isTransparent_def js_get_def js_lt_def alpha_at_def pixel_at_def row_at_def)

text \<open>
  That does not hang on the value 254: whatever the threshold, a pixel with alpha 255 or
  a pixel with alpha 0 separates the code from the claim.
\<close>

lemma isTransparent_below_threshold_fails_for_every_threshold:
  "\<exists>a \<in> {0, 255}.
     \<not> (isTransparent t \<lparr>width = 1, height = 1, data = [0, 0, 0, a]\<rparr> 0 0
         \<longleftrightarrow> alpha_at \<lparr>width = 1, height = 1, data = [0, 0, 0, a]\<rparr> 0 0 < t)"
  by (simp add: isTransparent_def js_get_def js_lt_def alpha_at_def pixel_at_def row_at_def)
     linarith

section \<open>Bitmaps and the two loops over alpha bytes\<close>

lemma js_get_append_at:
  "js_get (pre @ xs) (int (length pre) + int k) = js_get xs (int k)"
  by (simp add: js_get_def nth_append nat_add_distrib)

lemma length_rgba_bytes: "length (rgba_bytes p) = 4"
  by (cases p) (simp add: rgba_bytes_def)

lemma alphas_rgba_bytes: "alphas (rgba_bytes p @ rest) = rgba_alpha p # alphas rest"
  by (cases p) (simp add: rgba_bytes_def rgba_alpha_def)

lemma alphas_concat:
  "alphas (concat (map (\<lambda>k. rgba_bytes (g k)) ks)) = map (\<lambda>k. rgba_alpha (g k)) ks"
  by (induction ks) (simp_all add: alphas_rgba_bytes)

lemma length_concat_bytes:
  "length (concat (map (\<lambda>k. rgba_bytes (g k)) ks)) = 4 * length ks"
  by (induction ks) (simp_all add: length_rgba_bytes)

lemma chunk_concat_bytes:
  "k < length ks \<Longrightarrow>
   take 4 (drop (4 * k) (concat (map (\<lambda>i. rgba_bytes (g i)) ks))) = rgba_bytes (g (ks ! k))"
proof (induction ks arbitrary: k)
  case Nil
  then show ?case by simp
next
  case (Cons a ks)
  show ?case
  proof (cases k)
    case 0
    then show ?thesis by (simp add: length_rgba_bytes)
  next
    case (Suc j)
    then have "j < length ks" using Cons.prems by simp
    then show ?thesis using Cons.IH [of j] Suc by (simp add: length_rgba_bytes)
  qed
qed

lemma width_raster [simp]: "width (raster w h f) = w"
  and height_raster [simp]: "height (raster w h f) = h"
  by (simp_all add: raster_def)

lemma length_data_raster: "length (data (raster w h f)) = 4 * (w * h)"
  by (simp add: raster_def length_concat_bytes)

lemma alphas_raster:
  "alphas (data (raster w h f)) = map (\<lambda>k. rgba_alpha (f (k mod w) (k div w))) [0 ..< w * h]"
  by (simp add: raster_def alphas_concat)

lemma cell_in_range:
  assumes "k < w * h"
  shows "k mod w < w \<and> k div w < (h::nat)"
proof -
  have "0 < w" using assms by (cases w) simp_all
  moreover have "k div w < h" using assms by (simp add: less_mult_imp_div_less mult.commute)
  ultimately show ?thesis by simp
qed

lemma cell_index:
  assumes "x < (w::nat)"
  shows "(y * w + x) mod w = x" and "(y * w + x) div w = y"
  using assms by simp_all

lemma list_all_alphas_raster:
  assumes "\<And>x y. x < w \<Longrightarrow> y < h \<Longrightarrow> P (rgba_alpha (f x y))"
  shows "list_all P (alphas (data (raster w h f)))"
  unfolding alphas_raster list_all_iff using assms cell_in_range by auto

lemma get_pixel_raster:
  assumes "x < w" "y < h"
  shows "get_pixel (raster w h f) x y = f x y"
proof -
  let ?g = "\<lambda>k. f (k mod w) (k div w)"
  let ?d = "concat (map (\<lambda>k. rgba_bytes (?g k)) [0 ..< w * h])"
  have lt: "y * w + x < w * h"
  proof -
    have "y * w + x < Suc y * w" using assms(1) by simp
    also have "\<dots> \<le> h * w" using assms(2) by (intro mult_le_mono1) simp
    finally show ?thesis by (simp add: mult.commute)
  qed
  have "pixel_at (raster w h f) x y = take 4 (drop (4 * (y * w + x)) ?d)"
    using assms(1)
    by (simp add: pixel_at_def row_at_def raster_def drop_take min_def algebra_simps)
  also have "\<dots> = rgba_bytes (?g ([0 ..< w * h] ! (y * w + x)))"
    using lt by (intro chunk_concat_bytes) simp
  also have "\<dots> = rgba_bytes (f x y)"
    using lt cell_index [OF assms(1), of y] by simp
  finally show ?thesis
    by (cases "f x y") (simp add: get_pixel_def rgba_bytes_def)
qed

lemma transparent_loop_alphas:
  "isCompletelyTransparent_loop t (pre @ xs) (int (length pre))
   = list_all (\<lambda>a. \<not> t < a) (alphas xs)"
proof (induction xs arbitrary: pre rule: alphas.induct)
  case (1 r g b a rest)
  have get: "js_get (pre @ r # g # b # a # rest) (int (length pre) + 3) = Some a"
    using js_get_append_at [of pre "r # g # b # a # rest" 3] by (simp add: js_get_def)
  have next_index: "int (length pre) + 4 = int (length (pre @ [r, g, b, a]))" by simp
  have "isCompletelyTransparent_loop t (pre @ r # g # b # a # rest) (int (length pre) + 4)
        = list_all (\<lambda>a. \<not> t < a) (alphas rest)"
    using "1.IH" [of "pre @ [r, g, b, a]"] unfolding next_index by simp
  then show ?case
    by (subst isCompletelyTransparent_loop.simps) (simp add: get js_lt_def)
qed (subst isCompletelyTransparent_loop.simps, subst isCompletelyTransparent_loop.simps,
     simp add: js_get_def js_lt_def)+

lemma opaque_loop_alphas:
  "isCompletelyOpaque_loop t (pre @ xs) (int (length pre))
   = list_all (\<lambda>a. \<not> a < t) (alphas xs)"
proof (induction xs arbitrary: pre rule: alphas.induct)
  case (1 r g b a rest)
  have get: "js_get (pre @ r # g # b # a # rest) (int (length pre) + 3) = Some a"
    using js_get_append_at [of pre "r # g # b # a # rest" 3] by (simp add: js_get_def)
  have next_index: "int (length pre) + 4 = int (length (pre @ [r, g, b, a]))" by simp
  have "isCompletelyOpaque_loop t (pre @ r # g # b # a # rest) (int (length pre) + 4)
        = list_all (\<lambda>a. \<not> a < t) (alphas rest)"
    using "1.IH" [of "pre @ [r, g, b, a]"] unfolding next_index by simp
  then show ?case
    by (subst isCompletelyOpaque_loop.simps) (simp add: get js_lt_def)
qed (subst isCompletelyOpaque_loop.simps, subst isCompletelyOpaque_loop.simps,
     simp add: js_get_def js_lt_def)+

lemma isCompletelyTransparent_alphas:
  "isCompletelyTransparent t source_px =
     (if width source_px = 0 \<or> height source_px = 0 then Inl IndexSizeError
      else Inr (list_all (\<lambda>a. a \<le> t) (alphas (data source_px))))"
  using transparent_loop_alphas [of t "[]" "data source_px"]
  by (simp add: isCompletelyTransparent_def getImageData_def not_less)

lemma isCompletelyOpaque_alphas:
  "isCompletelyOpaque t source_px =
     (if width source_px = 0 \<or> height source_px = 0 then Inl IndexSizeError
      else Inr (list_all (\<lambda>a. t \<le> a) (alphas (data source_px))))"
  using opaque_loop_alphas [of t "[]" "data source_px"]
  by (simp add: isCompletelyOpaque_def getImageData_def not_less)

lemma drawImage_nonempty:
  "0 < width sp \<Longrightarrow> 0 < height sp \<Longrightarrow>
   drawImage sp sx sy sw sh dx dy dw dh dst = Inr (paint_image sp sx sy sw sh dx dy dw dh dst)"
  by (simp add: drawImage_def)

lemma drawImage_empty:
  "width sp = 0 \<or> height sp = 0 \<Longrightarrow>
   drawImage sp sx sy sw sh dx dy dw dh dst = Inl InvalidStateError"
  by (simp add: drawImage_def)

lemma width_paint_image [simp]:
  "width (paint_image sp sx sy sw sh dx dy dw dh dst) = width dst"
  and height_paint_image [simp]:
  "height (paint_image sp sx sy sw sh dx dy dw dh dst) = height dst"
  by (simp_all add: paint_image_def)

lemma width_clearRect [simp]: "width (clearRect x y w h im) = width im"
  and height_clearRect [simp]: "height (clearRect x y w h im) = height im"
  by (simp_all add: clearRect_def)

lemma width_fillRect [simp]: "width (fillRect c x y w h im) = width im"
  and height_fillRect [simp]: "height (fillRect c x y w h im) = height im"
  by (simp_all add: fillRect_def)

lemma width_createCanvas [simp]: "width (createCanvas w h) = w"
  and height_createCanvas [simp]: "height (createCanvas w h) = h"
  by (simp_all add: createCanvas_def)

lemma get_pixel_createCanvas:
  "x < w \<Longrightarrow> y < h \<Longrightarrow> get_pixel (createCanvas w h) x y = (0, 0, 0, 0)"
  by (simp add: createCanvas_def get_pixel_raster)

lemma get_pixel_cleared:
  "x < width im \<Longrightarrow> y < height im \<Longrightarrow>
   get_pixel (clearRect 0 0 (width im) (height im) im) x y = (0, 0, 0, 0)"
  by (simp add: clearRect_def get_pixel_raster in_rect_def)

lemma get_pixel_filled:
  "x < width im \<Longrightarrow> y < height im \<Longrightarrow>
   get_pixel (fillRect (0, 0, 0, 255) 0 0 (width im) (height im)
                (clearRect 0 0 (width im) (height im) im)) x y = (0, 0, 0, 255)"
  by (simp add: fillRect_def get_pixel_raster in_rect_def get_pixel_cleared source_over_def)

lemma sample_in_range:
  assumes "i < (dw::nat)"
  shows "(i * sw) div dw < sw \<or> sw = 0"
proof (cases "sw = 0")
  case True then show ?thesis by simp
next
  case False
  have "i * sw < dw * sw" using assms False by simp
  then have "(i * sw) div dw < sw"
    by (simp add: less_mult_imp_div_less mult.commute)
  then show ?thesis by simp
qed

text \<open>Copying a uniformly coloured block over a whole new canvas.\<close>

lemma length_data_paint_image_new:
  "length (data (paint_image sp sx sy sw sh dx dy dw dh (createCanvas w h))) = 4 * (w * h)"
  by (simp add: paint_image_def createCanvas_def length_data_raster)

lemma alphas_paint_image_uniform:
  assumes uniform: "\<And>u v. u < sx + sw \<Longrightarrow> v < sy + sh \<Longrightarrow> get_pixel sp u v = c"
    and inside: "sx + sw \<le> width sp" "sy + sh \<le> height sp"
    and nonempty: "0 < sw" "0 < sh"
    and over: "source_over c (0, 0, 0, 0) = c"
  shows "list_all (\<lambda>a. a = rgba_alpha c)
           (alphas (data (paint_image sp sx sy sw sh 0 0 w h (createCanvas w h))))"
proof (cases "w = 0 \<or> h = 0")
  case True
  then show ?thesis
    by (auto simp: paint_image_def createCanvas_def alphas_raster)
next
  case False
  have cell: "rgba_alpha
        (if in_rect 0 0 w h i j
         then (let u = sx + ((i - 0) * sw) div w; v = sy + ((j - 0) * sh) div h
               in if u < width sp \<and> v < height sp
                  then source_over (get_pixel sp u v) (get_pixel (createCanvas w h) i j)
                  else get_pixel (createCanvas w h) i j)
         else get_pixel (createCanvas w h) i j) = rgba_alpha c"
    if "i < w" "j < h" for i j
  proof -
    have u: "(i * sw) div w < sw" using sample_in_range [OF that(1), of sw] nonempty by simp
    have v: "(j * sh) div h < sh" using sample_in_range [OF that(2), of sh] nonempty by simp
    have "sx + (i * sw) div w < width sp" "sy + (j * sh) div h < height sp"
      using u v inside by simp_all
    moreover have "get_pixel sp (sx + (i * sw) div w) (sy + (j * sh) div h) = c"
      using u v by (intro uniform) simp_all
    ultimately show ?thesis
      using that by (simp add: in_rect_def get_pixel_createCanvas over)
  qed
  show ?thesis
    using False nonempty
    by (simp add: paint_image_def) (rule list_all_alphas_raster, simp add: cell)
qed

text \<open>
  The temporary canvas of \<open>createOriginalMask\<close> has \<open>MASK_DENSITY + 2\<close> pixels a side,
  so the second \<open>drawImage\<close> (line 245) never raises; the first one (line 207) raises
  exactly when \<open>this.canvas\<close> is empty.
\<close>

lemma createOriginalMask_transparent:
  assumes "isCompletelyTransparent t source_px = Inr True"
    and "0 < width canvas_px" "0 < height canvas_px"
  shows "\<exists>m. createOriginalMask t d contour fill canvas_px source_px = Inr m
           \<and> width m = width source_px \<and> height m = height source_px
           \<and> length (data m) = 4 * (width source_px * height source_px)
           \<and> list_all (\<lambda>a. a = 0) (alphas (data m))"
proof (cases "d = 0")
  case True
  then show ?thesis
    using assms
    by (simp add: createOriginalMask_def Let_def drawImage_def length_data_paint_image_new)
       (simp add: paint_image_def createCanvas_def alphas_raster list_all_iff rgba_alpha_def)
next
  case False
  let ?temp = "paint_image canvas_px 1 1 (width canvas_px) (height canvas_px) 1 1 d d
                 (createCanvas (d + 2) (d + 2))"
  have "list_all (\<lambda>a. a = rgba_alpha (0, 0, 0, 0))
          (alphas (data (paint_image (clearRect 0 0 (width ?temp) (height ?temp) ?temp) 1 1 d d
             0 0 (width source_px) (height source_px)
             (createCanvas (width source_px) (height source_px)))))"
    using False
    by (intro alphas_paint_image_uniform get_pixel_cleared) (simp_all add: source_over_def)
  then show ?thesis
    using assms
    by (simp add: createOriginalMask_def Let_def drawImage_def length_data_paint_image_new
          rgba_alpha_def)
qed

lemma createOriginalMask_opaque:
  assumes "isCompletelyTransparent t source_px = Inr False"
    and "isCompletelyOpaque t source_px = Inr True" and "0 < d"
    and "0 < width canvas_px" "0 < height canvas_px"
  shows "\<exists>m. createOriginalMask t d contour fill canvas_px source_px = Inr m
           \<and> width m = width source_px \<and> height m = height source_px
           \<and> length (data m) = 4 * (width source_px * height source_px)
           \<and> list_all (\<lambda>a. a = 255) (alphas (data m))"
proof -
  let ?temp = "paint_image canvas_px 1 1 (width canvas_px) (height canvas_px) 1 1 d d
                 (createCanvas (d + 2) (d + 2))"
  have "list_all (\<lambda>a. a = rgba_alpha (0, 0, 0, 255))
          (alphas (data (paint_image
             (fillRect (0, 0, 0, 255) 0 0 (width ?temp) (height ?temp)
                (clearRect 0 0 (width ?temp) (height ?temp) ?temp)) 1 1 d d
             0 0 (width source_px) (height source_px)
             (createCanvas (width source_px) (height source_px)))))"
    using assms(3)
    by (intro alphas_paint_image_uniform get_pixel_filled) (simp_all add: source_over_def)
  then show ?thesis
    using assms
    by (simp add: createOriginalMask_def Let_def drawImage_def length_data_paint_image_new
          rgba_alpha_def)
qed

text \<open>
  On an empty raster the code does not return a mask. An empty \<open>this.canvas\<close> makes the
  \<open>drawImage\<close> of line 207 raise; with a non-empty canvas, an empty \<open>this.source\<close>
  makes the \<open>getImageData\<close> of line 173 raise.
\<close>

lemma createOriginalMask_empty_canvas_throws:
  "width canvas_px = 0 \<or> height canvas_px = 0 \<Longrightarrow>
   createOriginalMask t d contour fill canvas_px source_px = Inl InvalidStateError"
  by (simp add: createOriginalMask_def drawImage_def)

lemma createOriginalMask_empty_source_throws:
  "0 < width canvas_px \<Longrightarrow> 0 < height canvas_px \<Longrightarrow>
   width source_px = 0 \<or> height source_px = 0 \<Longrightarrow>
   createOriginalMask t d contour fill canvas_px source_px = Inl IndexSizeError"
  by (simp add: createOriginalMask_def drawImage_def Let_def isCompletelyTransparent_alphas)

section \<open>Degenerate contours\<close>

lemma contourPath_empty: "contourPath [] = Inl TypeError"
  by (simp add: contourPath_def js_get_def)

text \<open>
  A single point: the \<open>moveTo\<close> reads entry 4 of a two-entry point, gets
  \<open>undefined\<close> and is dropped, nothing else is added, and the path stays empty.
\<close>

lemma contourPath_single: "contourPath [[px, py]] = Inr [] \<and> js_get [px, py] 4 = None"
  by (simp add: contourPath_def js_get_def moveTo_def closePath_def)

text \<open>
  With two points or more the first point never enters the path: the second point
  becomes its start.
\<close>

lemma contourPath_drops_first_point:
  "contourPath [[1, 1], [5, 1], [5, 6]] = Inr [MoveTo 5 1, LineTo 5 6, ClosePath]"
  by (simp add: contourPath_def js_get_def moveTo_def lineTo_def closePath_def upt_rec)

text \<open>
  C2. The claim: when the tracer returns fewer than two points, mask creation takes the
  empty-mask path and completes, and the drawing branch reads no point that does not
  exist. The code has no such guard. For a source with one opaque and one transparent
  pixel (threshold 254, density 1) and a tracer that returns the empty list, line 232
  reads \<open>points[0][0]\<close> of an empty array and \<open>createOriginalMask\<close> ends in a
  TypeError instead of a mask.
\<close>

theorem createOriginalMask_empty_contour_throws:
  "createOriginalMask 254 1 (\<lambda>grid. []) (\<lambda>path im. im)
     \<lparr>width = 2, height = 1, data = [10, 20, 30, 255, 0, 0, 0, 0]\<rparr>
     \<lparr>width = 2, height = 1, data = [10, 20, 30, 255, 0, 0, 0, 0]\<rparr>
   = Inl TypeError"
  by (simp add: createOriginalMask_def drawImage_def isCompletelyTransparent_alphas
        isCompletelyOpaque_alphas contourPath_empty Let_def)

section \<open>The two fast paths of mask creation\<close>

text \<open>
  C8. The claim: a source whose alpha bytes are all below the threshold gives a mask
  with every alpha byte 0, and a source whose alpha bytes are all at or above the
  threshold gives a mask with every alpha byte 255, both of the source's size. The first
  half holds, also for bytes equal to the threshold. The second half needs one byte
  strictly above the threshold: \<open>isCompletelyTransparent\<close> is asked first and accepts
  every byte that is not above the threshold, so a source whose bytes all equal the
  threshold gets the empty mask. \<open>MASK_DENSITY\<close> is positive, and \<open>this.source\<close> and
  \<open>this.canvas\<close> are rasters of positive width and height: on an empty one the code
  raises instead of returning a mask.
\<close>

theorem createOriginalMask_fast_paths:
  assumes "0 < MASK_DENSITY"
    and "0 < width source_px" and "0 < height source_px"
    and "0 < width canvas_px" and "0 < height canvas_px"
  shows "(list_all (\<lambda>a. a \<le> TRANSPARENCY_THRESHOLD) (alphas (data source_px)) \<longrightarrow>
            (\<exists>m. createOriginalMask TRANSPARENCY_THRESHOLD MASK_DENSITY contour fill
                    canvas_px source_px = Inr m
               \<and> width m = width source_px \<and> height m = height source_px
               \<and> length (data m) = 4 * (width source_px * height source_px)
               \<and> list_all (\<lambda>a. a = 0) (alphas (data m))))
       \<and> (list_all (\<lambda>a. TRANSPARENCY_THRESHOLD \<le> a) (alphas (data source_px))
            \<and> (\<exists>a \<in> set (alphas (data source_px)). TRANSPARENCY_THRESHOLD < a) \<longrightarrow>
            (\<exists>m. createOriginalMask TRANSPARENCY_THRESHOLD MASK_DENSITY contour fill
                    canvas_px source_px = Inr m
               \<and> width m = width source_px \<and> height m = height source_px
               \<and> length (data m) = 4 * (width source_px * height source_px)
               \<and> list_all (\<lambda>a. a = 255) (alphas (data m))))"
proof (intro conjI impI)
  assume "list_all (\<lambda>a. a \<le> TRANSPARENCY_THRESHOLD) (alphas (data source_px))"
  then have "isCompletelyTransparent TRANSPARENCY_THRESHOLD source_px = Inr True"
    using assms by (simp add: isCompletelyTransparent_alphas)
  then show "\<exists>m. createOriginalMask TRANSPARENCY_THRESHOLD MASK_DENSITY contour fill
                   canvas_px source_px = Inr m
               \<and> width m = width source_px \<and> height m = height source_px
               \<and> length (data m) = 4 * (width source_px * height source_px)
               \<and> list_all (\<lambda>a. a = 0) (alphas (data m))"
    using assms by (intro createOriginalMask_transparent)
next
  assume h: "list_all (\<lambda>a. TRANSPARENCY_THRESHOLD \<le> a) (alphas (data source_px))
             \<and> (\<exists>a \<in> set (alphas (data source_px)). TRANSPARENCY_THRESHOLD < a)"
  then have "isCompletelyOpaque TRANSPARENCY_THRESHOLD source_px = Inr True"
    using assms by (simp add: isCompletelyOpaque_alphas)
  moreover have "isCompletelyTransparent TRANSPARENCY_THRESHOLD source_px = Inr False"
    using h assms by (force simp: isCompletelyTransparent_alphas list_all_iff not_le)
  ultimately show "\<exists>m. createOriginalMask TRANSPARENCY_THRESHOLD MASK_DENSITY contour fill
                   canvas_px source_px = Inr m
               \<and> width m = width source_px \<and> height m = height source_px
               \<and> length (data m) = 4 * (width source_px * height source_px)
               \<and> list_all (\<lambda>a. a = 255) (alphas (data m))"
    using assms by (intro createOriginalMask_opaque)
qed

theorem createOriginalMask_fast_paths_witness:
  "(\<exists>m. createOriginalMask 254 2 (\<lambda>grid. []) (\<lambda>path im. im)
           \<lparr>width = 2, height = 1, data = [10, 20, 30, 255, 0, 0, 0, 254]\<rparr>
           \<lparr>width = 2, height = 1, data = [10, 20, 30, 255, 0, 0, 0, 254]\<rparr> = Inr m
         \<and> width m = 2 \<and> height m = 1 \<and> length (data m) = 8
         \<and> list_all (\<lambda>a. a = 255) (alphas (data m)))
   \<and> (\<exists>m. createOriginalMask 254 2 (\<lambda>grid. []) (\<lambda>path im. im)
           \<lparr>width = 2, height = 1, data = [10, 20, 30, 255, 0, 0, 0, 254]\<rparr>
           \<lparr>width = 1, height = 2, data = [10, 20, 30, 7, 0, 0, 0, 254]\<rparr> = Inr m
         \<and> width m = 1 \<and> height m = 2 \<and> length (data m) = 8
         \<and> list_all (\<lambda>a. a = 0) (alphas (data m)))"
  using createOriginalMask_fast_paths [of 2
      "\<lparr>width = 2, height = 1, data = [10, 20, 30, 255, 0, 0, 0, 254]\<rparr>"
      "\<lparr>width = 2, height = 1, data = [10, 20, 30, 255, 0, 0, 0, 254]\<rparr>" 254
      "\<lambda>grid. []" "\<lambda>path im. im"]
    createOriginalMask_fast_paths [of 2
      "\<lparr>width = 1, height = 2, data = [10, 20, 30, 7, 0, 0, 0, 254]\<rparr>"
      "\<lparr>width = 2, height = 1, data = [10, 20, 30, 255, 0, 0, 0, 254]\<rparr>" 254
      "\<lambda>grid. []" "\<lambda>path im. im"]
  by simp

text \<open>
  The claim as stated fails on the one-pixel source whose alpha byte is the threshold
  itself: every byte is at or above the threshold, and the mask is empty, not filled.
\<close>

theorem createOriginalMask_opaque_at_threshold_counterexample:
  "list_all (\<lambda>a. 254 \<le> a) (alphas [10, 20, 30, 254])
   \<and> createOriginalMask 254 1 (\<lambda>grid. []) (\<lambda>path im. im)
       \<lparr>width = 1, height = 1, data = [10, 20, 30, 254]\<rparr>
       \<lparr>width = 1, height = 1, data = [10, 20, 30, 254]\<rparr>
     = Inr \<lparr>width = 1, height = 1, data = [0, 0, 0, 0]\<rparr>"
  by code_simp

text \<open>
  The same holds for every threshold: a source whose only alpha byte is the threshold is
  at or above it everywhere and gets the empty mask.
\<close>

lemma createOriginalMask_at_threshold_is_empty:
  assumes "0 < width canvas_px" "0 < height canvas_px"
  shows "list_all (\<lambda>a. t \<le> a) (alphas [r, g, b, t])
   \<and> (\<exists>m. createOriginalMask t d contour fill canvas_px
              \<lparr>width = 1, height = 1, data = [r, g, b, t]\<rparr> = Inr m
          \<and> list_all (\<lambda>a. a = 0) (alphas (data m)))"
  using createOriginalMask_transparent
          [of t "\<lparr>width = 1, height = 1, data = [r, g, b, t]\<rparr>" canvas_px d contour fill]
        assms
  by (auto simp: isCompletelyTransparent_alphas)

section \<open>Stores of canvases\<close>

lemma length_on_canvas [simp]: "length (on_canvas r f st) = length st"
  by (simp add: on_canvas_def)

lemma on_canvas_same: "r < length st \<Longrightarrow> on_canvas r f st ! r = f (st ! r)"
  by (simp add: on_canvas_def)

lemma on_canvas_other: "r \<noteq> k \<Longrightarrow> on_canvas r f st ! k = st ! k"
  by (simp add: on_canvas_def)

lemma length_draw_mask [simp]: "length (draw_mask this maskLayer st) = length st"
  by (simp add: draw_mask_def)

lemma draw_mask_other: "canvas this \<noteq> k \<Longrightarrow> draw_mask this maskLayer st ! k = st ! k"
  by (simp add: draw_mask_def on_canvas_other)

lemma length_redraw_masks [simp]: "length (redraw_masks v this ids st) = length st"
  by (induction ids arbitrary: st) (simp_all split: option.splits)

lemma redraw_masks_other:
  "canvas this \<noteq> k \<Longrightarrow> redraw_masks v this ids st ! k = st ! k"
  by (induction ids arbitrary: st) (simp_all add: draw_mask_other split: option.splits)

lemma length_redraw_content [simp]: "length (redraw_content this original target st) = length st"
  by (simp add: redraw_content_def Let_def)

lemma redraw_content_other:
  "target \<noteq> k \<Longrightarrow> redraw_content this original target st ! k = st ! k"
  by (simp add: redraw_content_def Let_def on_canvas_other)

lemma cloneCanvas_eq:
  "cloneCanvas r st
     = (length st,
        st @ [(createElement_canvas (cwidth (st ! r)) (cheight (st ! r)))
                \<lparr>painted := painted (st ! r)\<rparr>])"
  by (simp add: cloneCanvas_def alloc_def)

lemma length_applyTint: "length (applyTint t this r st) = Suc (length st)"
  by (simp add: applyTint_def Let_def cloneCanvas_eq)

lemma length_redraw:
  "length (snd (redraw t v (this, st)))
     = (if tintLayer this then length st + 2 else length st + 1)"
  by (simp add: redraw_def Let_def cloneCanvas_def alloc_def length_applyTint)

lemma fst_redraw: "fst (redraw t v (this, st)) = this"
  by (simp add: redraw_def Let_def split: prod.splits)

section \<open>The example stack\<close>

text \<open>What \<open>Layer.fromColor\<close> returns: the new layer and the five canvases it adds.\<close>

lemma fromColor_eval:
  "fromColor n (Some c) w h st =
     (let W = (case w of None \<Rightarrow> 0 | Some x \<Rightarrow> x); H = (case h of None \<Rightarrow> 0 | Some y \<Rightarrow> y)
      in (\<lparr>layer_id = n, canvas = length st, source = length st + 4, preview = length st + 2,
           position = (0, 0), scale = 1, rotation = 0, center = (W / 2, H / 2), mirror = 1,
           flipped = False, img = None, sourceImg = None, active = False,
           providesMask = False, renderedMask = length st + 3, mask_canvas = None,
           sourceMask = None, maskCompositeOperation = SOURCE_IN, customMask = False,
           appliedMaskIds = [], customMaskLayers = False, alpha = 1,
           compositeOperation = SOURCE_OVER, visible = True, previousColor = None,
           color = Some c, colorLayer = True, previousAlphaPixelColors = None,
           alphaPixelColors = [], tintLayer = False, tintColor = None\<rparr>,
          st @ [filled_canvas W H c, createElement_canvas W H, createElement_canvas W H,
                createElement_canvas W H,
                (createElement_canvas W H)\<lparr>painted := painted (filled_canvas W H c)\<rparr>]))"
  by (simp add: fromColor_def Layer_constructor_def setColor_def alloc_def cloneCanvas_def
        createElement_canvas_def on_canvas_def set_fillStyle_def ctx_rect_def ctx_fill_def
        paint_with_def Let_def filled_canvas_def nth_append)

lemma store_A_eval:
  "store_A = [filled_canvas 2 2 ''#202020'', createElement_canvas 2 2, createElement_canvas 2 2,
      createElement_canvas 2 2,
      (createElement_canvas 2 2)\<lparr>painted := painted (filled_canvas 2 2 ''#202020'')\<rparr>]"
  by (simp add: store_A_def fromColor_eval)

lemma length_store_A: "length store_A = 5"
  by (simp add: store_A_eval)

lemma length_store_B: "length store_B = 10"
  by (simp add: store_B_def fromColor_eval length_store_A)

lemma length_store_C: "length store_C = 15"
  by (simp add: store_C_def fromColor_eval length_store_B)

lemma fields_A: "layer_id layer_A = ''A''" "providesMask layer_A"
  by (simp_all add: layer_A_def fromColor_eval)

lemma fields_B: "layer_id layer_B = ''B''" "\<not> providesMask layer_B" "\<not> customMaskLayers layer_B"
  by (simp_all add: layer_B_def fromColor_eval)

lemma fields_C: "layer_id layer_C = ''C''" "providesMask layer_C"
  by (simp_all add: layer_C_def fromColor_eval)

lemma refs_B: "canvas layer_B = 5" "source layer_B = 9" "preview layer_B = 7"
    "renderedMask layer_B = 8" "center layer_B = (1, 1)" "rotation layer_B = 0"
    "img layer_B = None" "color layer_B = Some ''#808080''"
    "mask_canvas layer_B = None" "sourceMask layer_B = None"
  by (simp_all add: layer_B_def fromColor_eval length_store_A)

lemma store_C_nth:
  "store_C ! 0 = filled_canvas 2 2 ''#202020''"
  "store_C ! 1 = createElement_canvas 2 2"
  "store_C ! 5 = filled_canvas 2 2 ''#808080''"
  "store_C ! 8 = createElement_canvas 2 2"
  "store_C ! 9 = (createElement_canvas 2 2)\<lparr>painted := painted (filled_canvas 2 2 ''#808080'')\<rparr>"
  by (simp_all add: store_C_def store_B_def store_A_eval fromColor_eval nth_append)

lemma source_B_blank: "draw_transforms (store_C ! 9) = []" "draw_transforms (store_C ! 8) = []"
  by (simp_all add: store_C_nth draw_transforms_def filled_canvas_def createElement_canvas_def)

lemma painted_B_eval:
  "fst painted_B = layer_B\<lparr>sourceMask := Some 1, customMask := True, mask_canvas := Some 0\<rparr>"
  "length (snd painted_B) = 15"
  "painted (snd painted_B ! 8)
     = [Paint identity 1 ''source-over'' ''#000000''
          (DrawImage (bitmap_of (filled_canvas 2 2 ''#202020'')) [0, 0, 2, 2])]"
  by (simp_all add: painted_B_def applyCustomMask_def refs_B length_store_C store_C_nth
        on_canvas_def ctx_drawImage_def paint_with_def createElement_canvas_def filled_canvas_def)

lemma refs_A: "canvas layer_A = 0" "renderedMask layer_A = 3"
  by (simp_all add: layer_A_def fromColor_eval)

lemma refs_C: "canvas layer_C = 10" "renderedMask layer_C = 13"
  by (simp_all add: layer_C_def fromColor_eval length_store_B)

lemma store_C_masks:
  "store_C ! 3 = createElement_canvas 2 2"
  "store_C ! 10 = filled_canvas 2 2 ''#f0f0f0''"
  "store_C ! 13 = createElement_canvas 2 2"
  by (simp_all add: store_C_def store_B_def store_A_eval fromColor_eval nth_append)

lemma masked_layers:
  "fst masked_A = layer_A\<lparr>customMask := True, mask_canvas := Some 0\<rparr>"
  "fst masked_C = layer_C\<lparr>customMask := True, mask_canvas := Some 10\<rparr>"
  by (simp_all add: masked_A_def masked_C_def applyCustomMask_def)

lemma masked_store:
  "snd masked_C
     = store_C[3 := ctx_drawImage (bitmap_of (filled_canvas 2 2 ''#202020'')) [0, 0, 2, 2]
                      (createElement_canvas 2 2),
               13 := ctx_drawImage (bitmap_of (filled_canvas 2 2 ''#f0f0f0'')) [0, 0, 2, 2]
                       (createElement_canvas 2 2)]"
  by (simp add: masked_A_def masked_C_def applyCustomMask_def refs_A refs_C on_canvas_def
        store_C_nth store_C_masks length_store_C filled_canvas_def createElement_canvas_def)

lemma masked_store_nth:
  "length (snd masked_C) = 15"
  "snd masked_C ! 3
     = ctx_drawImage (bitmap_of (filled_canvas 2 2 ''#202020'')) [0, 0, 2, 2]
         (createElement_canvas 2 2)"
  "snd masked_C ! 13
     = ctx_drawImage (bitmap_of (filled_canvas 2 2 ''#f0f0f0'')) [0, 0, 2, 2]
         (createElement_canvas 2 2)"
  "snd masked_C ! 0 = filled_canvas 2 2 ''#202020''"
  "snd masked_C ! 10 = filled_canvas 2 2 ''#f0f0f0''"
  "snd masked_C ! 5 = filled_canvas 2 2 ''#808080''"
  "snd masked_C ! 8 = createElement_canvas 2 2"
  "snd masked_C ! 9
     = (createElement_canvas 2 2)\<lparr>painted := painted (filled_canvas 2 2 ''#808080'')\<rparr>"
  by (simp_all add: masked_store length_store_C store_C_nth store_C_masks)

lemma compose_mirrored: "compose (1, 1) (- 1) 0 t = (- 1, 0, 0, 1, 2, 0)"
  by (simp add: compose_def mat_mul_def identity_def translation_def scaling_def rotation_by_def)

section \<open>Rotation and translation\<close>

text \<open>
  C6. \<open>rotate(d)\<close> adds twice \<open>d\<close> to the stored rotation and changes nothing else,
  in the layer or on any canvas. Numbers are real numbers here; the rounding of
  JavaScript's floating point is outside the model.
\<close>

theorem rotate_adds_twice_the_degree:
  "rotate_layer d (this, st) = (this\<lparr>rotation := rotation this + 2 * d\<rparr>, st)
   \<and> rotation (fst (rotate_layer d (this, st))) = rotation this + 2 * d"
  by (simp add: rotate_layer_def mult.commute)

text \<open>
  C10. \<open>translate(dx, dy)\<close> moves the stored position by minus the deltas and changes
  nothing else. It does not redraw: it returns the store it was given, and a redraw
  never does, since it starts by creating a canvas.
\<close>

theorem translate_subtracts_deltas:
  "translate dx dy (this, st)
     = (this\<lparr>position := (fst (position this) - dx, snd (position this) - dy)\<rparr>, st)
   \<and> snd (translate dx dy (this, st)) \<noteq> snd (redraw TO_RADIANS v (this, st))"
proof -
  have "length (snd (redraw TO_RADIANS v (this, st))) \<noteq> length st"
    by (simp add: length_redraw)
  then have "snd (redraw TO_RADIANS v (this, st)) \<noteq> st" by auto
  then show ?thesis by (auto simp add: translate_def)
qed

section \<open>Which masks a redraw applies\<close>

lemma redraw_masks_fold:
  "redraw_masks v this ids st = fold (draw_mask this) (appliedMaskLayers v this ids) st"
  by (induction ids arbitrary: st) (auto split: option.splits)

lemma find_layer_id:
  assumes "distinct (map layer_id ls)" "M \<in> set ls"
  shows "find (\<lambda>l. layer_id l = layer_id M) ls = Some M"
  using assms
proof (induction ls)
  case Nil
  then show ?case by simp
next
  case (Cons a ls)
  then show ?case by (cases "a = M") (auto simp: image_iff)
qed

lemma find_in_set: "find P ls = Some M \<Longrightarrow> M \<in> set ls \<and> P M"
  by (induction ls) (auto split: if_splits)

lemma set_appliedMaskLayers:
  "set (appliedMaskLayers v this ids) =
     {M. \<exists>i \<in> set ids. getMaskLayer v i = Some M
          \<and> (customMaskLayers this \<or> isOriginLayerHigher v i (layer_id this))}"
  by (induction ids) (auto split: option.splits)

lemma getMaskLayer_id: "getMaskLayer v i = Some M \<Longrightarrow> layer_id M = i \<and> M \<in> set (layers v)"
  using find_in_set [of "\<lambda>l. layer_id l = i" "layers v" M] by (simp add: getMaskLayer_def)

lemma distinct_appliedMaskLayers:
  "distinct ids \<Longrightarrow> distinct (appliedMaskLayers v this ids)"
proof (induction ids)
  case Nil
  then show ?case by simp
next
  case (Cons i ids)
  have "M \<notin> set (appliedMaskLayers v this ids)" if "getMaskLayer v i = Some M" for M
  proof
    assume "M \<in> set (appliedMaskLayers v this ids)"
    then obtain j where "j \<in> set ids" "getMaskLayer v j = Some M"
      by (auto simp: set_appliedMaskLayers)
    then have "j = i" using that getMaskLayer_id by blast
    then show False using \<open>j \<in> set ids\<close> Cons.prems by simp
  qed
  then show ?case using Cons by (auto split: option.splits)
qed

lemma appliedMaskLayers_providers:
  assumes "\<not> customMaskLayers this"
    and "distinct (map layer_id (layers v))"
    and "set (maskIds v) = layer_id ` {M \<in> set (layers v). providesMask M}"
  shows "set (appliedMaskLayers v this (maskIds v))
        = {M \<in> set (layers v).
             providesMask M \<and> isOriginLayerHigher v (layer_id M) (layer_id this)}"
    (is "?L = ?R")
proof (intro set_eqI iffI)
  fix M assume "M \<in> ?L"
  then obtain i where i: "i \<in> set (maskIds v)" "getMaskLayer v i = Some M"
      "isOriginLayerHigher v i (layer_id this)"
    using assms(1) by (auto simp: set_appliedMaskLayers)
  from i(2) have M: "M \<in> set (layers v)" "layer_id M = i"
    using getMaskLayer_id by blast+
  from i(1) assms(3) obtain N where N: "N \<in> set (layers v)" "providesMask N" "layer_id N = i"
    by auto
  have "N = M"
    using assms(2) M N by (meson distinct_map inj_onD)
  then show "M \<in> ?R" using M N i(3) by simp
next
  fix M assume "M \<in> ?R"
  then have M: "M \<in> set (layers v)" "providesMask M"
      "isOriginLayerHigher v (layer_id M) (layer_id this)" by simp_all
  have "layer_id M \<in> set (maskIds v)" using M assms(3) by auto
  moreover have "getMaskLayer v (layer_id M) = Some M"
    using find_layer_id [OF assms(2) M(1)] by (simp add: getMaskLayer_def)
  ultimately show "M \<in> ?L" using M(3) by (auto simp: set_appliedMaskLayers)
qed

text \<open>
  What \<open>redraw\<close> adds to \<open>this.canvas\<close>: the clearing, then one image for each
  mask layer the loop accepts, then the layer's own content.
\<close>

lemma map_filter_append:
  "List.map_filter f (xs @ ys) = List.map_filter f xs @ List.map_filter f ys"
  by (simp add: List.map_filter_def)

lemma applyTint_other:
  "k < length st \<Longrightarrow> k \<noteq> r \<Longrightarrow> applyTint t this r st ! k = st ! k"
  by (simp add: applyTint_def Let_def cloneCanvas_eq on_canvas_def nth_append)

lemma fold_draw_mask_painted:
  assumes "canvas this < length s" "\<forall>M \<in> set Ms. renderedMask M \<noteq> canvas this"
  shows "\<exists>news. painted (fold (draw_mask this) Ms s ! canvas this)
                  = painted (s ! canvas this) @ news
               \<and> List.map_filter drawn_image news
                  = map (\<lambda>M. bitmap_of (s ! renderedMask M)) Ms"
  using assms
proof (induction Ms arbitrary: s)
  case Nil
  then show ?case by (simp add: List.map_filter_def)
next
  case (Cons M Ms)
  let ?s = "draw_mask this M s"
  have len: "canvas this < length ?s" using Cons.prems by simp
  have rest: "\<forall>M \<in> set Ms. renderedMask M \<noteq> canvas this" using Cons.prems by simp
  from Cons.IH [OF len rest] obtain news where
    news: "painted (fold (draw_mask this) Ms ?s ! canvas this) = painted (?s ! canvas this) @ news"
      "List.map_filter drawn_image news = map (\<lambda>M. bitmap_of (?s ! renderedMask M)) Ms"
    by blast
  have same: "map (\<lambda>M. bitmap_of (?s ! renderedMask M)) Ms
              = map (\<lambda>M. bitmap_of (s ! renderedMask M)) Ms"
    using rest by (intro map_cong refl) (metis draw_mask_other)
  obtain p where p: "painted (?s ! canvas this) = painted (s ! canvas this) @ [p]"
      "drawn_image p = Some (bitmap_of (s ! renderedMask M))"
    using Cons.prems(1)
    by (simp add: draw_mask_def on_canvas_same ctx_drawImage_def paint_with_def)
  show ?case
    using news p same
    by (intro exI [of _ "p # news"]) (simp add: List.map_filter_def)
qed

lemma redraw_content_painted:
  assumes "target < length st" "original \<noteq> target"
  shows "\<exists>news. painted (redraw_content this original target st ! target)
                  = painted (st ! target) @ news
               \<and> List.map_filter drawn_image news
                  = (if colorLayer this then [] else [bitmap_of (st ! original)])"
  using assms
  by (simp add: redraw_content_def Let_def on_canvas_def ctx_translate_def ctx_fill_def
        ctx_rect_def set_fillStyle_def ctx_resetTransform_def ctx_drawImage_def paint_with_def
        ctx_applyTransparentPixels_def List.map_filter_def split: option.splits)

lemma painted_prepare:
  "painted (ctx_resetTransform (ctx_clearRect x y w h (c\<lparr>globalCompositeOperation := g\<rparr>)))
     = painted c @ [Paint (transform c) (globalAlpha c) g (fillStyle c) (ClearRect x y w h)]"
  by (simp add: ctx_resetTransform_def ctx_clearRect_def paint_with_def)

lemma redraw_images:
  assumes c: "canvas this < length st" and p: "preview this < length st"
    and cp: "canvas this \<noteq> preview this"
    and masks: "\<forall>M \<in> set (appliedMaskLayers v this ids). renderedMask M < length st
                 \<and> renderedMask M \<noteq> canvas this \<and> renderedMask M \<noteq> preview this"
    and ids: "ids = (if customMaskLayers this then appliedMaskIds this else maskIds v)"
  shows "\<exists>news. painted (snd (redraw t v (this, st)) ! canvas this)
                  = painted (st ! canvas this) @ news
               \<and> List.map_filter drawn_image news
                  = map (\<lambda>M. bitmap_of (st ! renderedMask M)) (appliedMaskLayers v this ids)
                    @ (if colorLayer this then []
                       else [bitmap_of (snd (redraw t v (this, st)) ! length st)])"
proof -
  let ?n = "length st"
  let ?st1 = "snd (cloneCanvas (source this) st)"
  let ?st2 = "on_canvas ?n (applyTransformations t this ?st1 True) ?st1"
  let ?st3 = "on_canvas ?n (ctx_drawImage (bitmap_of (?st2 ! source this)) [0, 0]) ?st2"
  let ?st4 = "if tintLayer this then applyTint t this ?n ?st3 else ?st3"
  define st5 where "st5 = on_canvas ?n ctx_resetTransform ?st4"
  let ?prepare = "\<lambda>cContext. ctx_resetTransform
                               (ctx_clearRect 0 0 (cwidth (st5 ! source this))
                                  (cheight (st5 ! source this))
                                  (cContext\<lparr>globalCompositeOperation :=
                                              compositeOperation this\<rparr>))"
  let ?st6 = "on_canvas (preview this) ?prepare (on_canvas (canvas this) ?prepare st5)"
  let ?st7 = "redraw_masks v this ids ?st6"
  let ?st7c = "redraw_content this ?n (canvas this) ?st7"
  let ?st8 = "redraw_content this ?n (preview this) ?st7c"
  have red: "snd (redraw t v (this, st)) = ?st8"
    by (simp add: redraw_def Let_def cloneCanvas_eq ids st5_def)
  have len5: "?n < length st5"
    by (simp add: cloneCanvas_eq length_applyTint st5_def)
  have old5: "st5 ! k = st ! k" if "k < ?n" for k
    using that
    by (simp add: cloneCanvas_eq on_canvas_other applyTint_other nth_append st5_def)
  let ?clear = "Paint (transform (st ! canvas this)) (globalAlpha (st ! canvas this))
                     (compositeOperation this) (fillStyle (st ! canvas this))
                     (ClearRect 0 0 (cwidth (st5 ! source this)) (cheight (st5 ! source this)))"
  have "?st6 ! canvas this = ?prepare (st5 ! canvas this)"
    using c cp len5 by (simp add: on_canvas_other on_canvas_same)
  then have c6: "painted (?st6 ! canvas this) = painted (st ! canvas this) @ [?clear]"
    by (simp add: painted_prepare old5 [OF c])
  have m6: "?st6 ! renderedMask M = st ! renderedMask M"
    if "M \<in> set (appliedMaskLayers v this ids)" for M
  proof -
    have "renderedMask M < ?n" "preview this \<noteq> renderedMask M"
        "canvas this \<noteq> renderedMask M"
      using masks that by auto
    then show ?thesis by (simp add: on_canvas_other old5)
  qed
  have len6: "canvas this < length ?st6" using c len5 by simp
  have away: "\<forall>M \<in> set (appliedMaskLayers v this ids). renderedMask M \<noteq> canvas this"
    using masks by simp
  from fold_draw_mask_painted [OF len6 away] obtain n1 where
    n1: "painted (?st7 ! canvas this) = painted (?st6 ! canvas this) @ n1"
      "List.map_filter drawn_image n1
         = map (\<lambda>M. bitmap_of (?st6 ! renderedMask M)) (appliedMaskLayers v this ids)"
    unfolding redraw_masks_fold by blast
  have n1': "List.map_filter drawn_image n1
         = map (\<lambda>M. bitmap_of (st ! renderedMask M)) (appliedMaskLayers v this ids)"
    unfolding n1(2) by (intro map_cong refl) (simp only: m6)
  have len7: "canvas this < length ?st7" using len6 by simp
  have "?n \<noteq> canvas this" using c by simp
  from redraw_content_painted [OF len7 this] obtain n2 where
    n2: "painted (?st7c ! canvas this) = painted (?st7 ! canvas this) @ n2"
      "List.map_filter drawn_image n2
         = (if colorLayer this then [] else [bitmap_of (?st7 ! ?n)])"
    by blast
  have c8: "?st8 ! canvas this = ?st7c ! canvas this"
    using cp by (simp add: redraw_content_other)
  have o8: "?st8 ! ?n = ?st7 ! ?n"
    using c p by (simp add: redraw_content_other)
  have "painted (?st8 ! canvas this) = painted (st ! canvas this) @ (?clear # n1 @ n2)"
    unfolding c8 n2(1) n1(1) c6 by simp
  moreover have "List.map_filter drawn_image (?clear # n1 @ n2)
      = map (\<lambda>M. bitmap_of (st ! renderedMask M)) (appliedMaskLayers v this ids)
        @ (if colorLayer this then [] else [bitmap_of (?st8 ! ?n)])"
    unfolding o8 by (simp add: map_filter_append n1' n2(2) List.map_filter_simps)
  ultimately show ?thesis
    unfolding red by blast
qed

text \<open>
  C3. With \<open>customMaskLayers\<close> false, the images \<open>redraw\<close> draws onto
  \<open>this.canvas\<close> are the rendered masks of exactly the mask-providing layers \<open>M\<close> of
  the stack with \<open>isOriginLayerHigher(M.id, L.id)\<close>, in the order of \<open>view.maskIds\<close>
  and each once if that list has no duplicates, and after them the layer's own image (a
  colour layer is filled, no image is drawn). \<open>redraw\<close> walks \<open>view.maskIds\<close>; the
  hypotheses on the view say what that list and the ids are in a view kept in order: the
  ids of the stack are distinct, and \<open>maskIds\<close> holds the ids of the layers that
  provide a mask. The canvases of the layers are canvases of the page, \<open>this.canvas\<close>
  and \<open>this.preview\<close> are two canvases, no layer's rendered mask is one of them, and
  every canvas that is drawn from, read or measured has pixels.
\<close>

theorem redraw_mask_providers:
  assumes "\<not> customMaskLayers this"
    and "distinct (map layer_id (layers v))"
    and "set (maskIds v) = layer_id ` {M \<in> set (layers v). providesMask M}"
    and "canvas this < length st" and "preview this < length st"
    and "source this < length st" and "canvas this \<noteq> preview this"
    and "has_pixels (st ! canvas this)" and "has_pixels (st ! source this)"
    and "\<forall>M \<in> set (layers v).
           renderedMask M < length st \<and> renderedMask M \<noteq> canvas this
           \<and> renderedMask M \<noteq> preview this \<and> has_pixels (st ! renderedMask M)
           \<and> canvas M < length st \<and> has_pixels (st ! canvas M)"
  shows "painted (snd (redraw TO_RADIANS v (this, st)) ! canvas this)
           = painted (st ! canvas this)
             @ paints_added (st ! canvas this)
                 (snd (redraw TO_RADIANS v (this, st)) ! canvas this)
         \<and> images_drawn (st ! canvas this)
             (snd (redraw TO_RADIANS v (this, st)) ! canvas this)
           = map (\<lambda>M. bitmap_of (st ! renderedMask M))
               (appliedMaskLayers v this (maskIds v))
             @ (if colorLayer this then []
                else [bitmap_of (snd (redraw TO_RADIANS v (this, st)) ! length st)])
         \<and> set (appliedMaskLayers v this (maskIds v))
           = {M \<in> set (layers v).
                providesMask M \<and> isOriginLayerHigher v (layer_id M) (layer_id this)}
         \<and> (distinct (maskIds v) \<longrightarrow> distinct (appliedMaskLayers v this (maskIds v)))"
proof -
  have providers: "set (appliedMaskLayers v this (maskIds v))
        = {M \<in> set (layers v).
             providesMask M \<and> isOriginLayerHigher v (layer_id M) (layer_id this)}"
    using assms(1-3) by (rule appliedMaskLayers_providers)
  have masks: "\<forall>M \<in> set (appliedMaskLayers v this (maskIds v)).
                 renderedMask M < length st \<and> renderedMask M \<noteq> canvas this
                 \<and> renderedMask M \<noteq> preview this"
    using assms(10) unfolding providers by simp
  have ids: "maskIds v = (if customMaskLayers this then appliedMaskIds this else maskIds v)"
    using assms(1) by simp
  from redraw_images [OF assms(4,5,7) masks ids, of TO_RADIANS] obtain news where
    news: "painted (snd (redraw TO_RADIANS v (this, st)) ! canvas this)
             = painted (st ! canvas this) @ news"
      "List.map_filter drawn_image news
         = map (\<lambda>M. bitmap_of (st ! renderedMask M)) (appliedMaskLayers v this (maskIds v))
           @ (if colorLayer this then []
              else [bitmap_of (snd (redraw TO_RADIANS v (this, st)) ! length st)])"
    by blast
  have added: "paints_added (st ! canvas this)
                 (snd (redraw TO_RADIANS v (this, st)) ! canvas this) = news"
    by (simp add: paints_added_def news(1))
  show ?thesis
    unfolding images_drawn_def added
    using news providers by (simp add: distinct_appliedMaskLayers)
qed

text \<open>
  The stack \<open>[A, B, C]\<close> with A at the bottom, A and C providing masks: redrawing B
  draws one image onto its canvas, the rendered mask of C, which is not that of A.
\<close>

theorem redraw_mask_providers_witness:
  "\<not> customMaskLayers layer_B
   \<and> images_drawn (snd masked_C ! canvas layer_B)
       (snd (redraw (pi / 180) masked_view (layer_B, snd masked_C)) ! canvas layer_B)
     = [Bitmap 2 2
          [Paint identity 1 ''source-over'' ''#000000''
             (DrawImage
                (Bitmap 2 2 [Paint identity 1 ''source-over'' ''#f0f0f0'' (Fill [(0, 0, 2, 2)])])
                [0, 0, 2, 2])]]
   \<and> bitmap_of (snd masked_C ! renderedMask (fst masked_A))
     = Bitmap 2 2
         [Paint identity 1 ''source-over'' ''#000000''
            (DrawImage
               (Bitmap 2 2 [Paint identity 1 ''source-over'' ''#202020'' (Fill [(0, 0, 2, 2)])])
               [0, 0, 2, 2])]
   \<and> set (appliedMaskLayers masked_view layer_B (maskIds masked_view)) = {fst masked_C}
   \<and> distinct (appliedMaskLayers masked_view layer_B (maskIds masked_view))"
proof -
  have ids: "layer_id (fst masked_A) = ''A''" "layer_id (fst masked_C) = ''C''"
      "providesMask (fst masked_A)" "providesMask (fst masked_C)"
      "renderedMask (fst masked_A) = 3" "renderedMask (fst masked_C) = 13"
      "canvas (fst masked_A) = 0" "canvas (fst masked_C) = 10"
    by (simp_all add: masked_layers fields_A fields_C refs_A refs_C)
  have h2: "distinct (map layer_id (layers masked_view))"
    by (simp add: masked_view_def ids fields_B)
  have "{M \<in> set (layers masked_view). providesMask M} = {fst masked_A, fst masked_C}"
    using ids fields_B by (auto simp: masked_view_def)
  then have h3: "set (maskIds masked_view)
            = layer_id ` {M \<in> set (layers masked_view). providesMask M}"
    by (simp add: masked_view_def ids)
  have h4: "canvas layer_B < length (snd masked_C)" "preview layer_B < length (snd masked_C)"
      "source layer_B < length (snd masked_C)" "canvas layer_B \<noteq> preview layer_B"
    by (simp_all add: refs_B masked_store_nth)
  have h8: "has_pixels (snd masked_C ! canvas layer_B)" "has_pixels (snd masked_C ! source layer_B)"
    by (simp_all add: refs_B masked_store_nth has_pixels_def filled_canvas_def
          createElement_canvas_def)
  have h10: "\<forall>M \<in> set (layers masked_view).
           renderedMask M < length (snd masked_C) \<and> renderedMask M \<noteq> canvas layer_B
           \<and> renderedMask M \<noteq> preview layer_B \<and> has_pixels (snd masked_C ! renderedMask M)
           \<and> canvas M < length (snd masked_C) \<and> has_pixels (snd masked_C ! canvas M)"
    by (simp add: masked_view_def ids refs_B masked_store_nth has_pixels_def
          ctx_drawImage_def paint_with_def createElement_canvas_def filled_canvas_def)
  have higher: "\<not> isOriginLayerHigher masked_view ''A'' ''B''"
      "isOriginLayerHigher masked_view ''C'' ''B''"
    by (simp_all add: masked_view_def stack_isOriginLayerHigher_def ids fields_B)
  have "{M \<in> set (layers masked_view).
           providesMask M
           \<and> isOriginLayerHigher masked_view (layer_id M) (layer_id layer_B)}
        = {M \<in> {fst masked_A, layer_B, fst masked_C}.
            providesMask M
            \<and> isOriginLayerHigher masked_view (layer_id M) ''B''}"
    by (simp add: masked_view_def fields_B)
  also have "\<dots> = {fst masked_C}"
    using higher ids fields_B by auto
  finally have providers: "{M \<in> set (layers masked_view).
           providesMask M
           \<and> isOriginLayerHigher masked_view (layer_id M) (layer_id layer_B)} = {fst masked_C}" .
  have applied: "appliedMaskLayers masked_view layer_B (maskIds masked_view) = [fst masked_C]"
    using higher ids fields_B
    by (simp add: masked_view_def getMaskLayer_def)
  have colour: "colorLayer layer_B"
    by (simp add: layer_B_def fromColor_eval)
  have dist: "distinct (maskIds masked_view)"
    by (simp add: masked_view_def)
  show ?thesis
    using redraw_mask_providers [OF fields_B(3) h2 h3 h4 h8 h10, of "pi / 180"]
      fields_B(3) dist
    unfolding providers
    by (simp add: applied colour ids masked_store_nth bitmap_of_def ctx_drawImage_def
          paint_with_def createElement_canvas_def filled_canvas_def)
qed


text \<open>
  \<open>resetMasks\<close> rebuilds \<open>appliedMaskIds\<close> by the same rule, from the
  \<open>providesMask\<close> flags of the stack, and switches the custom selection off.
\<close>

lemma set_set_add: "set (set_add s xs) = insert s (set xs)"
  by (auto simp: set_add_def)

lemma fold_mask_ids:
  "layer_id (fold (\<lambda>l t. if providesMask l \<and> hi (layer_id l) (layer_id t)
                            then t\<lparr>appliedMaskIds := set_add (layer_id l) (appliedMaskIds t)\<rparr>
                            else t) ls t0) = layer_id t0
   \<and> set (appliedMaskIds
        (fold (\<lambda>l t. if providesMask l \<and> hi (layer_id l) (layer_id t)
                       then t\<lparr>appliedMaskIds := set_add (layer_id l) (appliedMaskIds t)\<rparr>
                       else t) ls t0))
     = set (appliedMaskIds t0)
       \<union> layer_id ` {l \<in> set ls. providesMask l \<and> hi (layer_id l) (layer_id t0)}"
  by (induction ls arbitrary: t0) (auto simp: set_set_add)

lemma resetMasks_layer:
  assumes "resetMasks t v (this, st) = Inr (this', st')"
  shows "this' =
     (fold (\<lambda>l t. if providesMask l \<and> isOriginLayerHigher v (layer_id l) (layer_id t)
                    then t\<lparr>appliedMaskIds := set_add (layer_id l) (appliedMaskIds t)\<rparr>
                    else t) (layers v) (this\<lparr>customMaskLayers := False, appliedMaskIds := []\<rparr>))
     \<lparr>compositeOperation := SOURCE_OVER, maskCompositeOperation := SOURCE_IN,
      customMask := False, mask_canvas := Some (length st)\<rparr>"
proof -
  have "map_sum id fst (resetMasks t v (this, st)) = Inr this'"
    using assms by simp
  then show ?thesis
    unfolding resetMasks_def Let_def
    by (simp add: fst_redraw cloneCanvas_eq split: option.splits)
qed

lemma fold_mask_ids_flag:
  "customMaskLayers
     (fold (\<lambda>l t. if P l t then t\<lparr>appliedMaskIds := g l t\<rparr> else t) ls t0)
   = customMaskLayers t0"
  by (induction ls arbitrary: t0) simp_all

lemma fold_sourceMask:
  "sourceMask
     (fold (\<lambda>l t. if P l t then t\<lparr>appliedMaskIds := g l t\<rparr> else t) ls t0)
   = sourceMask t0"
  by (induction ls arbitrary: t0) simp_all

lemma resetMasks_appliedMaskIds:
  assumes "resetMasks t v (this, st) = Inr (this', st')"
  shows "set (appliedMaskIds this')
         = layer_id ` {M \<in> set (layers v).
                         providesMask M \<and> isOriginLayerHigher v (layer_id M) (layer_id this)}"
    and "\<not> customMaskLayers this'" and "\<not> customMask this'"
  using fold_mask_ids [of "isOriginLayerHigher v" "layers v"
          "this\<lparr>customMaskLayers := False, appliedMaskIds := []\<rparr>"]
  by (simp_all add: resetMasks_layer [OF assms] fold_mask_ids_flag)

text \<open>
  A layer without a source mask: the call throws, the store is as it was, and the layer
  keeps the cleared flags and the rebuilt \<open>appliedMaskIds\<close>.
\<close>

lemma resetMasks_throws:
  assumes "resetMasks t v (this, st) = Inl (e, this', st')"
  shows "e = TypeError" and "st' = st" and "sourceMask this = None"
    and "this' =
     (fold (\<lambda>l t. if providesMask l \<and> isOriginLayerHigher v (layer_id l) (layer_id t)
                    then t\<lparr>appliedMaskIds := set_add (layer_id l) (appliedMaskIds t)\<rparr>
                    else t) (layers v) (this\<lparr>customMaskLayers := False, appliedMaskIds := []\<rparr>))
     \<lparr>compositeOperation := SOURCE_OVER, maskCompositeOperation := SOURCE_IN,
      customMask := False\<rparr>"
  using assms unfolding resetMasks_def Let_def
  by (simp_all add: fold_sourceMask cloneCanvas_eq split: option.splits prod.splits)

lemma resetMasks_throws_appliedMaskIds:
  assumes "resetMasks t v (this, st) = Inl (e, this', st')"
  shows "set (appliedMaskIds this')
         = layer_id ` {M \<in> set (layers v).
                         providesMask M \<and> isOriginLayerHigher v (layer_id M) (layer_id this)}"
    and "\<not> customMaskLayers this'" and "\<not> customMask this'"
  using fold_mask_ids [of "isOriginLayerHigher v" "layers v"
          "this\<lparr>customMaskLayers := False, appliedMaskIds := []\<rparr>"]
  by (simp_all add: resetMasks_throws(4) [OF assms] fold_mask_ids_flag)

section \<open>The transform under which a layer draws\<close>

lemma transform_applyTransformations:
  "transform (applyTransformations t this st a context)
     = compose (center this) (mirror this) (rotation this) t"
  by (simp add: applyTransformations_def compose_def Let_def ctx_resetTransform_def
        ctx_clearRect_def ctx_translate_def ctx_scale_def ctx_rotate_def paint_with_def)

lemma draw_transforms_applyTransformations:
  "draw_transforms (applyTransformations t this st a context) = draw_transforms context"
  by (simp add: applyTransformations_def draw_transforms_def Let_def ctx_resetTransform_def
        ctx_clearRect_def ctx_translate_def ctx_scale_def ctx_rotate_def paint_with_def)

lemma draw_transforms_drawImage:
  "draw_transforms (ctx_drawImage bmp args c) = draw_transforms c @ [transform c]"
  by (simp add: ctx_drawImage_def draw_transforms_def paint_with_def)

lemma draw_after_applyTransformations:
  "draw_transforms (ctx_drawImage bmp args (applyTransformations t this st a context))
     = draw_transforms context @ [compose (center this) (mirror this) (rotation this) t]"
  by (simp add: draw_transforms_drawImage draw_transforms_applyTransformations
        transform_applyTransformations)

lemma recalculateMask_draws:
  assumes "mask_canvas this = Some m" "\<not> customMask this" "renderedMask this < length st"
  shows "draw_transforms (snd (recalculateMask t (this, st)) ! renderedMask this)
           = draw_transforms (st ! renderedMask this)
             @ [compose (center this) (mirror this) (rotation this) t]"
  using assms
  by (simp add: recalculateMask_def Let_def on_canvas_same draw_after_applyTransformations)

lemma draw_transforms_copy:
  "draw_transforms ((createElement_canvas w h)\<lparr>painted := painted c\<rparr>) = draw_transforms c"
  by (simp add: draw_transforms_def)

lemma draw_transforms_gco [simp]:
  "draw_transforms (c\<lparr>globalCompositeOperation := g\<rparr>) = draw_transforms c"
  by (simp add: draw_transforms_def)

lemma transform_gco [simp]:
  "transform (ctx_drawImage bmp args c) = transform c"
  by (simp add: ctx_drawImage_def paint_with_def)

lemma draw_transforms_resetTransform [simp]:
  "draw_transforms (ctx_resetTransform c) = draw_transforms c"
  by (simp add: draw_transforms_def ctx_resetTransform_def)

lemma draw_transforms_fillRect [simp]:
  "draw_transforms (ctx_fillRect x y w h c) = draw_transforms c"
  by (simp add: draw_transforms_def ctx_fillRect_def paint_with_def)

lemma draw_transforms_set_fillStyle [simp]:
  "draw_transforms (set_fillStyle s c) = draw_transforms c"
  by (simp add: draw_transforms_def set_fillStyle_def split: option.splits)

lemma draw_transforms_new [simp]:
  "draw_transforms (set_height h (set_width w c)) = []"
  by (simp add: draw_transforms_def set_height_def set_width_def createElement_canvas_def)

text \<open>The tint pass: what it leaves on the tint canvas and on the context it is given.\<close>

lemmas draw_simps = draw_transforms_drawImage draw_transforms_applyTransformations
  transform_applyTransformations

lemma applyTint_tintCanvas:
  assumes "r < length st"
  shows "draw_transforms (applyTint t this r st ! length st)
           = [compose (center this) (mirror this) (rotation this) t]"
  using assms
  by (simp add: applyTint_def cloneCanvas_eq Let_def on_canvas_def nth_append draw_simps)

lemma applyTint_context:
  assumes "r < length st"
  shows "draw_transforms (applyTint t this r st ! r)
           = draw_transforms (st ! r) @ [transform (st ! r)]"
  using assms
  by (simp add: applyTint_def cloneCanvas_eq Let_def on_canvas_def nth_append draw_simps)

text \<open>
  What \<open>redraw\<close> does after the tint pass leaves every canvas other than
  \<open>this.canvas\<close> and \<open>this.preview\<close> as it is, up to the reset of the transform.
\<close>

lemma redraw_store_elsewhere:
  assumes "canvas this \<noteq> k" "preview this \<noteq> k"
  shows "redraw_content this original (preview this)
           (redraw_content this original (canvas this)
              (redraw_masks v this ids
                 (on_canvas (preview this) f (on_canvas (canvas this) g st)))) ! k = st ! k"
  using assms
  by (simp add: redraw_content_other redraw_masks_other on_canvas_other)

lemma redraw_original:
  assumes "canvas this < length st" "preview this < length st"
  shows "draw_transforms (snd (redraw t v (this, st)) ! length st)
           = draw_transforms (st ! source this)
             @ (if tintLayer this
                then [compose (center this) (mirror this) (rotation this) t,
                      compose (center this) (mirror this) (rotation this) t]
                else [compose (center this) (mirror this) (rotation this) t])"
proof -
  let ?C = "compose (center this) (mirror this) (rotation this) t"
  let ?copy = "(createElement_canvas (cwidth (st ! source this)) (cheight (st ! source this)))
                 \<lparr>painted := painted (st ! source this)\<rparr>"
  let ?st1 = "st @ [?copy]"
  let ?st2 = "on_canvas (length st) (applyTransformations t this ?st1 True) ?st1"
  let ?st3 = "on_canvas (length st) (ctx_drawImage (bitmap_of (?st2 ! source this)) [0, 0]) ?st2"
  let ?st4 = "if tintLayer this then applyTint t this (length st) ?st3 else ?st3"
  let ?st5 = "on_canvas (length st) ctx_resetTransform ?st4"
  have ne: "canvas this \<noteq> length st" "preview this \<noteq> length st"
    using assms by simp_all
  have len3: "length ?st3 = Suc (length st)" by simp
  have at3: "?st3 ! length st
             = ctx_drawImage (bitmap_of (?st2 ! source this)) [0, 0]
                 (applyTransformations t this ?st1 True ?copy)"
    by (simp add: on_canvas_def)
  have d3: "draw_transforms (?st3 ! length st) = draw_transforms (st ! source this) @ [?C]"
    unfolding at3 by (simp add: draw_simps draw_transforms_copy)
  have t3: "transform (?st3 ! length st) = ?C"
    unfolding at3 by (simp add: draw_simps)
  have d4: "draw_transforms (?st4 ! length st)
            = draw_transforms (st ! source this) @ (if tintLayer this then [?C, ?C] else [?C])"
  proof (cases "tintLayer this")
    case True
    have "length st < length ?st3" using len3 by simp
    from applyTint_context [OF this, of t this] show ?thesis
      using True d3 t3 by simp
  next
    case False
    then show ?thesis using d3 by simp
  qed
  have len4: "length st < length ?st4"
    by (simp add: length_applyTint)
  have "snd (redraw t v (this, st)) ! length st = ?st5 ! length st"
    using ne by (simp add: redraw_def cloneCanvas_eq Let_def redraw_store_elsewhere)
  also have "\<dots> = ctx_resetTransform (?st4 ! length st)"
    using len4 by (rule on_canvas_same)
  finally show ?thesis
    using d4 by simp
qed

lemma redraw_tintCanvas:
  assumes "canvas this < length st" "preview this < length st" "tintLayer this"
  shows "draw_transforms (snd (redraw t v (this, st)) ! Suc (length st))
           = [compose (center this) (mirror this) (rotation this) t]"
proof -
  let ?copy = "(createElement_canvas (cwidth (st ! source this)) (cheight (st ! source this)))
                 \<lparr>painted := painted (st ! source this)\<rparr>"
  let ?st1 = "st @ [?copy]"
  let ?st2 = "on_canvas (length st) (applyTransformations t this ?st1 True) ?st1"
  let ?st3 = "on_canvas (length st) (ctx_drawImage (bitmap_of (?st2 ! source this)) [0, 0]) ?st2"
  let ?st4 = "applyTint t this (length st) ?st3"
  have ne: "canvas this \<noteq> Suc (length st)" "preview this \<noteq> Suc (length st)"
    using assms by simp_all
  have len3: "length ?st3 = Suc (length st)" by simp
  have "snd (redraw t v (this, st)) ! Suc (length st)
        = on_canvas (length st) ctx_resetTransform ?st4 ! Suc (length st)"
    using ne assms(3) by (simp add: redraw_def cloneCanvas_eq Let_def redraw_store_elsewhere)
  also have "\<dots> = ?st4 ! length ?st3"
    unfolding len3 by (rule on_canvas_other) simp
  finally show ?thesis
    using applyTint_tintCanvas [of "length st" ?st3 t this] len3 by simp
qed

text \<open>
  C5. \<open>applyTransformations\<close> leaves the context with the transform composed in the
  stated order, whatever the context held before. \<open>redraw\<close> draws the source onto its
  scratch canvas (the canvas it creates first, at address \<open>length st\<close>) under that
  transform, and with tinting on also the tinted copy; the tint pass draws the source onto
  the tint canvas (the next address) under it; \<open>recalculateMask\<close> draws the mask onto
  \<open>renderedMask\<close> under it.
\<close>

theorem composed_transform_order:
  assumes "canvas this < length st" and "preview this < length st"
    and "renderedMask this < length st"
  shows "transform (applyTransformations TO_RADIANS this st alpha_arg context)
           = compose (center this) (mirror this) (rotation this) TO_RADIANS
       \<and> draw_transforms (snd (redraw TO_RADIANS v (this, st)) ! length st)
           = draw_transforms (st ! source this)
             @ (if tintLayer this
                then [compose (center this) (mirror this) (rotation this) TO_RADIANS,
                      compose (center this) (mirror this) (rotation this) TO_RADIANS]
                else [compose (center this) (mirror this) (rotation this) TO_RADIANS])
       \<and> (tintLayer this \<longrightarrow>
            draw_transforms (snd (redraw TO_RADIANS v (this, st)) ! Suc (length st))
            = [compose (center this) (mirror this) (rotation this) TO_RADIANS])
       \<and> (mask_canvas this = Some m \<and> \<not> customMask this \<longrightarrow>
            draw_transforms (snd (recalculateMask TO_RADIANS (this, st)) ! renderedMask this)
            = draw_transforms (st ! renderedMask this)
              @ [compose (center this) (mirror this) (rotation this) TO_RADIANS])"
  using assms
  by (simp add: transform_applyTransformations redraw_original redraw_tintCanvas
        recalculateMask_draws)

theorem composed_transform_order_witness:
  "draw_transforms
     (snd (redraw (pi / 180) example_view
             (layer_B\<lparr>mirror := - 1, mask_canvas := Some 0, tintLayer := True\<rparr>, store_C)) ! 15)
     = [(- 1, 0, 0, 1, 2, 0), (- 1, 0, 0, 1, 2, 0)]
   \<and> draw_transforms
       (snd (redraw (pi / 180) example_view
               (layer_B\<lparr>mirror := - 1, mask_canvas := Some 0, tintLayer := True\<rparr>, store_C)) ! 16)
     = [(- 1, 0, 0, 1, 2, 0)]
   \<and> draw_transforms
       (snd (recalculateMask (pi / 180)
               (layer_B\<lparr>mirror := - 1, mask_canvas := Some 0, tintLayer := True\<rparr>, store_C)) ! 8)
     = [(- 1, 0, 0, 1, 2, 0)]"
proof -
  let ?L = "layer_B\<lparr>mirror := - 1, mask_canvas := Some 0, tintLayer := True\<rparr>"
  have refs: "canvas ?L < length store_C" "preview ?L < length store_C"
      "renderedMask ?L < length store_C"
    by (simp_all add: refs_B length_store_C)
  have flags: "tintLayer ?L" "mask_canvas ?L = Some 0" "\<not> customMask ?L"
    by (simp_all add: layer_B_def fromColor_eval)
  show ?thesis
    using composed_transform_order [OF refs, of "pi / 180" True "store_C ! 0" example_view 0] flags
    by (simp add: refs_B length_store_C source_B_blank compose_mirrored)
qed

section \<open>A custom mask is not recalculated\<close>

text \<open>
  C7. With \<open>customMask\<close> set, \<open>recalculateMask\<close> returns the layer and every canvas
  as they were, so \<open>mask\<close> and \<open>renderedMask\<close> keep their content, for as long as
  the flag stays set; \<open>applyCustomMask\<close> sets the flag.
\<close>

theorem recalculateMask_keeps_custom_mask:
  "(customMask this \<longrightarrow> recalculateMask TO_RADIANS (this, st) = (this, st))
   \<and> customMask (fst (applyCustomMask mask_ref (this, st)))
   \<and> recalculateMask TO_RADIANS (applyCustomMask mask_ref (this, st))
       = applyCustomMask mask_ref (this, st)"
  by (simp add: recalculateMask_def applyCustomMask_def split: option.splits)

theorem recalculateMask_keeps_custom_mask_witness:
  "customMask (layer_B\<lparr>customMask := True, mask_canvas := Some 0\<rparr>)
   \<and> recalculateMask (pi / 180) (layer_B\<lparr>customMask := True, mask_canvas := Some 0\<rparr>, store_C)
       = (layer_B\<lparr>customMask := True, mask_canvas := Some 0\<rparr>, store_C)"
  using recalculateMask_keeps_custom_mask
          [of "layer_B\<lparr>customMask := True, mask_canvas := Some 0\<rparr>" "pi / 180" store_C 0]
  by simp

text \<open>Without the flag the same call does repaint the rendered mask.\<close>

lemma recalculateMask_repaints_without_flag:
  assumes "mask_canvas this = Some m" "\<not> customMask this" "renderedMask this < length st"
  shows "snd (recalculateMask t (this, st)) \<noteq> st"
proof
  assume "snd (recalculateMask t (this, st)) = st"
  then have "draw_transforms (st ! renderedMask this)
             = draw_transforms (st ! renderedMask this)
               @ [compose (center this) (mirror this) (rotation this) t]"
    using recalculateMask_draws [OF assms, of t] by simp
  then show False by simp
qed

text \<open>\<open>resetMasks\<close> clears the flag; the other methods leave it as it is.\<close>

lemma resetMasks_clears_customMask:
  assumes "resetMasks t v (this, st) = Inr (this', st')"
  shows "\<not> customMask this'"
  using resetMasks_appliedMaskIds [OF assms] by simp

lemma customMask_kept_by_other_methods:
  "customMask (fst (translate dx dy (this, st))) = customMask this"
  "customMask (fst (rotate_layer d (this, st))) = customMask this"
  "customMask (fst (setScale f (this, st))) = customMask this"
  "customMask (fst (activate (this, st))) = customMask this"
  "customMask (fst (deactivate (this, st))) = customMask this"
  "customMask (fst (redraw t v (this, st))) = customMask this"
  "customMask (fst (flip t v (this, st))) = customMask this"
  "customMask (fst (recalculateMask t (this, st))) = customMask this"
  by (simp_all add: translate_def rotate_layer_def setScale_def activate_def deactivate_def
        fst_redraw flip_def recalculateMask_def Let_def split: option.splits)

section \<open>The colour-key pass is idempotent\<close>

lemma js_get_append_0: "js_get (pre @ xs) (int (length pre)) = js_get xs 0"
  using js_get_append_at [of pre xs 0] by simp

lemma js_set_append_at:
  "js_set (pre @ xs) (int (length pre) + int k) v = pre @ js_set xs (int k) v"
  by (simp add: js_set_def list_update_append nat_add_distrib)

lemma js_set_append_0: "js_set (pre @ xs) (int (length pre)) v = pre @ js_set xs 0 v"
  using js_set_append_at [of pre xs 0 v] by simp

lemmas at_numerals =
  js_get_append_0 js_get_append_at [of _ _ 1, simplified] js_get_append_at [of _ _ 2, simplified]
  js_get_append_at [of _ _ 3, simplified]
  js_set_append_0 js_set_append_at [of _ _ 1, simplified] js_set_append_at [of _ _ 2, simplified]
  js_set_append_at [of _ _ 3, simplified]

lemma js_get_Nil: "js_get [] i = None"
  by (simp add: js_get_def)

lemma js_get_Cons: "js_get (x # xs) i = (if i = 0 then Some x else js_get xs (i - 1))"
  by (auto simp: js_get_def nth_Cons' nat_diff_distrib)

lemma js_set_Nil: "js_set [] i v = []"
  by (simp add: js_set_def)

lemma js_set_Cons: "js_set (x # xs) i v = (if i = 0 then v # xs else x # js_set xs (i - 1) v)"
  by (auto simp: js_set_def list_update_code nat_diff_distrib split: nat.splits)

lemmas js_eval = js_get_Nil js_get_Cons js_set_Nil js_set_Cons

lemma loop_key_pixels:
  "applyTransparentPixels_loop nb c (pre @ xs) (int (length pre)) = pre @ key_pixels nb c xs"
proof (induction nb c xs arbitrary: pre rule: key_pixels.induct)
  case (1 nb c r g b a rest)
  have step: "applyTransparentPixels_loop nb c (pre @ x0 # x1 # x2 # x3 # rest) (int (length pre) + 4)
        = pre @ [x0, x1, x2, x3] @ key_pixels nb c rest" for x0 x1 x2 x3
    using "1.IH" [of "pre @ [x0, x1, x2, x3]"] by (simp add: add.commute)
  show ?case
    by (subst applyTransparentPixels_loop.simps)
       (simp add: at_numerals js_eval step Let_def)
next
  case (2 nb c r g b)
  show ?case
    by (subst applyTransparentPixels_loop.simps, subst applyTransparentPixels_loop.simps,
        subst applyTransparentPixels_loop.simps)
       (simp add: at_numerals js_eval Let_def)
next
  case (3 nb c r g)
  show ?case
    by (subst applyTransparentPixels_loop.simps, subst applyTransparentPixels_loop.simps,
        subst applyTransparentPixels_loop.simps)
       (simp add: at_numerals js_eval Let_def)
next
  case (4 nb c r)
  show ?case
    by (subst applyTransparentPixels_loop.simps, subst applyTransparentPixels_loop.simps,
        subst applyTransparentPixels_loop.simps)
       (simp add: at_numerals js_eval Let_def)
next
  case (5 nb c)
  show ?case
    by (subst applyTransparentPixels_loop.simps) simp
qed

lemma loop_from_start:
  "applyTransparentPixels_loop nb c xs 0 = key_pixels nb c xs"
  using loop_key_pixels [of nb c "[]" xs] by simp

lemma applyTransparentPixels_fold:
  "applyTransparentPixels nb cs xs = fold (key_pixels nb) cs xs"
  by (simp add: applyTransparentPixels_def loop_from_start)

text \<open>One pixel: a colour either leaves it or zeroes it, and zeroes stay zeroes.\<close>

lemma key_pixels_short:
  "length xs \<le> 4 \<Longrightarrow>
   key_pixels nb c xs = xs \<or> key_pixels nb c xs = replicate (length xs) 0"
  by (induction nb c xs rule: key_pixels.induct) auto

lemma key_pixels_zeros:
  "n \<le> 4 \<Longrightarrow> key_pixels nb c (replicate n 0) = replicate n 0"
proof -
  assume "n \<le> 4"
  then consider "n = 0" | "n = 1" | "n = 2" | "n = 3" | "n = 4" by linarith
  then show ?thesis
    by cases (simp_all add: numeral_2_eq_2 numeral_3_eq_3 eval_nat_numeral)
qed

lemma fold_key_pixels_zeros:
  "n \<le> 4 \<Longrightarrow> fold (key_pixels nb) cs (replicate n 0) = replicate n 0"
  by (induction cs) (simp_all add: key_pixels_zeros)

lemma fold_key_pixels_short:
  "length xs \<le> 4 \<Longrightarrow>
   fold (key_pixels nb) cs xs = xs \<or> fold (key_pixels nb) cs xs = replicate (length xs) 0"
proof (induction cs arbitrary: xs)
  case Nil
  then show ?case by simp
next
  case (Cons c cs)
  from key_pixels_short [OF Cons.prems, of nb c] show ?case
  proof
    assume "key_pixels nb c xs = xs"
    then show ?thesis using Cons.IH [OF Cons.prems] by simp
  next
    assume "key_pixels nb c xs = replicate (length xs) 0"
    then show ?thesis using fold_key_pixels_zeros [OF Cons.prems, of nb cs] by simp
  qed
qed

lemma fold_key_pixels_short_idem:
  assumes "length xs \<le> 4"
  shows "fold (key_pixels nb) cs (fold (key_pixels nb) cs xs) = fold (key_pixels nb) cs xs"
  using fold_key_pixels_short [OF assms, of nb cs] fold_key_pixels_zeros [OF assms, of nb cs]
  by auto

text \<open>The pass works pixel by pixel.\<close>

lemma key_pixels_first:
  "key_pixels nb c (r # g # b # a # rest) = key_pixels nb c [r, g, b, a] @ key_pixels nb c rest"
  by simp

lemma fold_key_pixels_first:
  "fold (key_pixels nb) cs (r # g # b # a # rest)
     = fold (key_pixels nb) cs [r, g, b, a] @ fold (key_pixels nb) cs rest"
proof (induction cs arbitrary: r g b a rest)
  case Nil
  then show ?case by simp
next
  case (Cons c cs)
  show ?case
    using Cons.IH [of r g b a "key_pixels nb c rest"]
          Cons.IH [of 0 0 0 0 "key_pixels nb c rest"]
    by simp
qed

lemma fold_key_pixels_four:
  "\<exists>r' g' b' a'. fold (key_pixels nb) cs [r, g, b, a] = [r', g', b', a']"
  using fold_key_pixels_short [of "[r, g, b, a]" nb cs]
  by (auto simp: numeral_eq_Suc)

text \<open>
  C9. Running the colour-key pass a second time right after the first changes no byte,
  for every byte array, every list of reference colours and every \<open>isNeighborColor\<close>:
  a pixel the first run zeroed is zero again whether or not it matches, and a pixel the
  first run left alone matched no colour and still matches none.
\<close>

theorem applyTransparentPixels_idempotent:
  "applyTransparentPixels isNeighborColor referenceColors
     (applyTransparentPixels isNeighborColor referenceColors imageData)
   = applyTransparentPixels isNeighborColor referenceColors imageData"
proof -
  let ?F = "fold (key_pixels isNeighborColor) referenceColors"
  have "?F (?F xs) = ?F xs" for xs
  proof (induction xs rule: alphas.induct)
    case (1 r g b a rest)
    obtain r' g' b' a' where first: "?F [r, g, b, a] = [r', g', b', a']"
      using fold_key_pixels_four by blast
    have "?F (?F (r # g # b # a # rest)) = ?F ([r', g', b', a'] @ ?F rest)"
      by (simp add: fold_key_pixels_first [of _ _ r g b a rest] first)
    also have "\<dots> = ?F [r', g', b', a'] @ ?F (?F rest)"
      using fold_key_pixels_first [of isNeighborColor referenceColors r' g' b' a' "?F rest"]
      by simp
    also have "?F [r', g', b', a'] = [r', g', b', a']"
      using fold_key_pixels_short_idem [of "[r, g, b, a]" isNeighborColor referenceColors] first
      by simp
    also have "?F (?F rest) = ?F rest" by (rule "1.IH")
    finally show ?case
      by (simp add: fold_key_pixels_first [of _ _ r g b a rest] first)
  qed (simp_all add: fold_key_pixels_short_idem)
  then show ?thesis by (simp add: applyTransparentPixels_fold)
qed

text \<open>The pass is not the identity: a matching pixel is zeroed, the others stay.\<close>

lemma applyTransparentPixels_example:
  "applyTransparentPixels (\<lambda>c p. red c = red p)
     [\<lparr>red = Some 10, green = Some 0, blue = Some 0, Color.alpha = Some 255\<rparr>]
     [10, 20, 30, 255, 11, 20, 30, 255]
   = [0, 0, 0, 0, 11, 20, 30, 255]"
  by (simp add: applyTransparentPixels_fold)

section \<open>Cloning a layer\<close>

lemma fromColor_length:
  "length st \<le> length (snd (fromColor n c w h st))"
  by (simp add: fromColor_def Layer_constructor_def setColor_def alloc_def cloneCanvas_eq Let_def
        split: prod.splits)

lemma clone_replaces_own_renderedMask:
  assumes "renderedMask this < length st"
    and "\<And>i h w tc tl s. length s \<le> length (snd (fromImage i h w tc tl s))"
  shows "renderedMask (fst (clone fromImage newId (this, st))) \<noteq> renderedMask this"
proof -
  obtain newLayer0 st1 where f:
    "(case img this of
        Some i \<Rightarrow> fromImage i (cheight (st ! source this)) (cwidth (st ! source this))
                    (tintColor this) (tintLayer this) st
      | None \<Rightarrow> fromColor newId (color this) None None st) = (newLayer0, st1)"
    by fastforce
  have "length st \<le> length st1"
  proof (cases "img this")
    case None
    then show ?thesis using f fromColor_length [of st newId "color this" None None] by simp
  next
    case (Some i)
    then show ?thesis
      using f assms(2) [of st i "cheight (st ! source this)" "cwidth (st ! source this)"
          "tintColor this" "tintLayer this"] by simp
  qed
  then have "renderedMask this < length st1" using assms(1) by simp
  then show ?thesis
    by (simp add: clone_def f cloneCanvas_eq Let_def split: option.splits)
qed

text \<open>
  C4. The claim: the clone's \<open>mask\<close>, \<open>sourceMask\<close> and \<open>renderedMask\<close> are copies
  of the original's, and the original's own references are left as they were. Line 110
  does that for \<open>mask\<close>. Lines 111 and 112 assign to \<open>this\<close> instead of
  \<open>newLayer\<close>: for layer B above, after \<open>clone\<close> the original points to new copies
  of its source mask and rendered mask, the clone has no source mask, and the clone's
  rendered mask is the empty canvas its constructor made, while the original's holds the
  custom mask.
\<close>

theorem clone_masks_at_example:
  "(case clone fromImage ''N'' painted_B of
      (this', newLayer, st') \<Rightarrow>
         renderedMask this' \<noteq> renderedMask (fst painted_B)
       \<and> sourceMask this' \<noteq> sourceMask (fst painted_B)
       \<and> sourceMask newLayer = None
       \<and> painted (st' ! renderedMask newLayer) = []
       \<and> painted (snd painted_B ! renderedMask (fst painted_B)) \<noteq> [])"
proof -
  obtain this st where p: "painted_B = (this, st)" by fastforce
  have this_eq: "this = layer_B\<lparr>sourceMask := Some 1, customMask := True, mask_canvas := Some 0\<rparr>"
    and len: "length st = 15"
    and rendered: "painted (st ! 8) \<noteq> []"
    using painted_B_eval by (simp_all add: p)
  show ?thesis
    unfolding p
    by (simp add: clone_def this_eq refs_B fromColor_eval cloneCanvas_eq Let_def len rendered
          nth_append createElement_canvas_def)
qed

end
